theory Spec2Isabelle
  imports Main
begin

section \<open>dbgen: struct tags, the tag parser and the method synthesizer\<close>

text \<open>
  The development follows \<^verbatim>\<open>src/dbgen/main.go\<close>. Go strings are byte sequences and
  are modelled as \<^typ>\<open>string\<close>. Go identifiers (type names and field names) are
  strings as well; the Go grammar makes them non-empty and free of the character
  \<^verbatim>\<open>%\<close>.
\<close>

subsection \<open>Library functions the generator calls\<close>

text \<open>
  \<^verbatim>\<open>reflect.StructTag\<close>: the tag of a field is kept as the sequence of its
  \<^verbatim>\<open>key:"value"\<close> pairs in the order they are written, values unquoted.
  \<^verbatim>\<open>tag.Get(key)\<close> returns the value of the first pair with that key and the
  empty string when there is none.
\<close>

type_synonym StructTag = "(string \<times> string) list"

fun Get :: "StructTag \<Rightarrow> string \<Rightarrow> string" where
  "Get [] key = ''''"
| "Get ((name, v) # tag) key = (if key = name then v else Get tag key)"

text \<open>
  \<^verbatim>\<open>strconv.ParseBool\<close>: the six spellings of true, the six spellings of false,
  and a syntax error (\<open>None\<close>) for every other string.
\<close>

definition ParseBool :: "string \<Rightarrow> bool option" where
  "ParseBool str =
     (if str \<in> {''1'', ''t'', ''T'', ''TRUE'', ''true'', ''True''} then Some True
      else if str \<in> {''0'', ''f'', ''F'', ''FALSE'', ''false'', ''False''} then Some False
      else None)"

text \<open>\<^verbatim>\<open>strings.Join(elems, sep)\<close>.\<close>

fun Join :: "string list \<Rightarrow> string \<Rightarrow> string" where
  "Join [] sep = ''''"
| "Join [x] sep = x"
| "Join (x # y # ys) sep = x @ sep @ Join (y # ys) sep"

subsection \<open>Syntax tree of a struct field, and the descriptor\<close>

text \<open>
  \<^verbatim>\<open>ast.Field\<close>: \<open>Names\<close> is empty for an embedded field, \<open>Tag\<close> is
  \<open>None\<close> for a field without a tag.
\<close>

record ast_Field =
  Names :: "string list"
  Tag :: "StructTag option"

record SQLInfo =
  Name :: string
  Table :: string
  KeyName :: string
  KeyField :: string
  UserField :: string
  TimeField :: string
  Order :: "string list"
  Fields :: "string \<rightharpoonup> string"
  NoUpdate :: "string set"

text \<open>Reading a Go map at a missing key gives the zero value, here the empty string.\<close>

definition FieldsAt :: "SQLInfo \<Rightarrow> string \<Rightarrow> string" where
  "FieldsAt s k = (case Fields s k of None \<Rightarrow> '''' | Some v \<Rightarrow> v)"

text \<open>
  \<^verbatim>\<open>field.Names[0].Name\<close> is an index expression on a slice: on an embedded field
  it panics.
\<close>

datatype panic = IndexOutOfRange

definition Name0 :: "ast_Field \<Rightarrow> panic + string" where
  "Name0 field = (case Names field of [] \<Rightarrow> Inl IndexOutOfRange | n # _ \<Rightarrow> Inr n)"

subsection \<open>sqlTags\<close>

text \<open>
  The body of the loop over \<^verbatim>\<open>fields.List\<close> has three consecutive \<^verbatim>\<open>if\<close>
  statements, on the \<^verbatim>\<open>sql\<close>, the \<^verbatim>\<open>audit\<close> and the \<^verbatim>\<open>update\<close> value of the
  tag. The state of the loop is the descriptor under construction and the flag
  \<^verbatim>\<open>good\<close>.
\<close>

definition sqlPart :: "StructTag \<Rightarrow> ast_Field \<Rightarrow> SQLInfo \<times> bool \<Rightarrow> panic + SQLInfo \<times> bool" where
  "sqlPart tag field st =
     (case st of (info, good) \<Rightarrow>
        let sql = Get tag ''sql'' in
        if length sql > 0 then
          let table = Get tag ''table'';
              info1 = (if length table > 0 then info\<lparr>Table := table\<rparr> else info);
              key = Get tag ''key''
          in if length key > 0 then
               (case Name0 field of
                  Inl e \<Rightarrow> Inl e
                | Inr n \<Rightarrow> Inr (info1\<lparr>KeyName := n, KeyField := sql\<rparr>, True))
             else
               (case Name0 field of
                  Inl e \<Rightarrow> Inl e
                | Inr n \<Rightarrow>
                    Inr (info1\<lparr>Fields := (Fields info1)(n \<mapsto> sql),
                                Order := Order info1 @ [n]\<rparr>, True))
        else Inr (info, good))"

definition auditPart :: "StructTag \<Rightarrow> ast_Field \<Rightarrow> SQLInfo \<times> bool \<Rightarrow> panic + SQLInfo \<times> bool" where
  "auditPart tag field st =
     (case st of (info, good) \<Rightarrow>
        let audit = Get tag ''audit'' in
        if length audit > 0 then
          if audit = ''user'' then
            (case Name0 field of
               Inl e \<Rightarrow> Inl e
             | Inr n \<Rightarrow> Inr (info\<lparr>UserField := n\<rparr>, good))
          else if audit = ''time'' then
            (case Name0 field of
               Inl e \<Rightarrow> Inl e
             | Inr n \<Rightarrow> Inr (info\<lparr>TimeField := n\<rparr>, good))
          else Inr (info, good)
        else Inr (info, good))"

definition updatePart :: "StructTag \<Rightarrow> ast_Field \<Rightarrow> SQLInfo \<times> bool \<Rightarrow> panic + SQLInfo \<times> bool" where
  "updatePart tag field st =
     (case st of (info, good) \<Rightarrow>
        let update = Get tag ''update'' in
        if length update > 0 then
          (case ParseBool update of
             Some up \<Rightarrow>
               if up = False then
                 (case Name0 field of
                    Inl e \<Rightarrow> Inl e
                  | Inr n \<Rightarrow> Inr (info\<lparr>NoUpdate := insert n (NoUpdate info)\<rparr>, good))
               else Inr (info, good)
           | None \<Rightarrow> Inr (info, good))
        else Inr (info, good))"

definition tagField :: "ast_Field \<Rightarrow> SQLInfo \<times> bool \<Rightarrow> panic + SQLInfo \<times> bool" where
  "tagField field st =
     (case Tag field of
        None \<Rightarrow> Inr st
      | Some tag \<Rightarrow>
          (case sqlPart tag field st of
             Inl e \<Rightarrow> Inl e
           | Inr st1 \<Rightarrow>
               (case auditPart tag field st1 of
                  Inl e \<Rightarrow> Inl e
                | Inr st2 \<Rightarrow> updatePart tag field st2)))"

fun tagFields :: "ast_Field list \<Rightarrow> SQLInfo \<times> bool \<Rightarrow> panic + SQLInfo \<times> bool" where
  "tagFields [] st = Inr st"
| "tagFields (field # list) st =
     (case tagField field st of
        Inl e \<Rightarrow> Inl e
      | Inr st1 \<Rightarrow> tagFields list st1)"

definition newSQLInfo :: SQLInfo where
  "newSQLInfo =
     \<lparr>Name = '''', Table = '''', KeyName = '''', KeyField = '''', UserField = '''',
      TimeField = '''', Order = [], Fields = Map.empty, NoUpdate = {}\<rparr>"

text \<open>
  \<^verbatim>\<open>sqlTags\<close> returns a pointer to the descriptor, or \<^verbatim>\<open>nil\<close> (\<open>None\<close>) when
  no field set \<^verbatim>\<open>good\<close>. The parameter \<^verbatim>\<open>typeName\<close> is not used by the body.
\<close>

definition sqlTags :: "string \<Rightarrow> ast_Field list \<Rightarrow> panic + SQLInfo option" where
  "sqlTags typeName list =
     (case tagFields list (newSQLInfo, False) of
        Inl e \<Rightarrow> Inl e
      | Inr (info, good) \<Rightarrow> Inr (if good then Some info else None))"

subsection \<open>The templates\<close>

text \<open>
  Each template constant of the source is a function of the arguments that
  \<^verbatim>\<open>fmt.Fprintf\<close> substitutes into it: \<^verbatim>\<open>%[n]s\<close> is the \<open>n\<close>-th argument, and a
  plain \<^verbatim>\<open>%s\<close> after \<^verbatim>\<open>%[1]s\<close> is the second.
\<close>

abbreviation nl :: string where "nl \<equiv> [CHR 0x0A]"
abbreviation tab :: string where "tab \<equiv> [CHR 0x09]"
abbreviation dq :: string where "dq \<equiv> [CHR 0x22]"

definition stringInsertValues :: "string \<Rightarrow> string \<Rightarrow> string" where
  "stringInsertValues a1 a2 =
     ''func (o *'' @ a1 @ '') InsertValues() []interface{} {'' @ nl @
     tab @ ''return []interface{}{'' @ a2 @ ''}'' @ nl @
     ''}'' @ nl @ nl"

definition stringUpdateValues :: "string \<Rightarrow> string \<Rightarrow> string" where
  "stringUpdateValues a1 a2 =
     ''func (o *'' @ a1 @ '') UpdateValues() []interface{} {'' @ nl @
     tab @ ''return []interface{}{'' @ a2 @ ''}'' @ nl @
     ''}'' @ nl @ nl"

definition stringMemberPointers :: "string \<Rightarrow> string \<Rightarrow> string" where
  "stringMemberPointers a1 a2 =
     ''func (o *'' @ a1 @ '') MemberPointers() []interface{} {'' @ nl @
     tab @ ''return []interface{}{'' @ a2 @ ''}'' @ nl @
     ''}'' @ nl @ nl"

definition stringKey :: "string \<Rightarrow> string \<Rightarrow> string" where
  "stringKey a1 a2 =
     ''func (o *'' @ a1 @ '') Key() int64 {'' @ nl @
     tab @ ''return o.'' @ a2 @ nl @
     ''}'' @ nl @ nl"

definition stringNoKey :: "string \<Rightarrow> string" where
  "stringNoKey a1 =
     ''func (o *'' @ a1 @ '') Key() int64 {'' @ nl @
     tab @ ''return 0'' @ nl @
     ''}'' @ nl @ nl"

definition stringSetID :: "string \<Rightarrow> string \<Rightarrow> string" where
  "stringSetID a1 a2 =
     ''func (o *'' @ a1 @ '') SetID(id int64) {'' @ nl @
     tab @ ''o.'' @ a2 @ '' = id'' @ nl @
     ''}'' @ nl @ nl"

definition stringNoSetID :: "string \<Rightarrow> string" where
  "stringNoSetID a1 =
     ''func (o *'' @ a1 @ '') SetID(id int64) {'' @ nl @
     ''}'' @ nl @ nl"

definition stringTableName :: "string \<Rightarrow> string \<Rightarrow> string" where
  "stringTableName a1 a2 =
     ''func (o *'' @ a1 @ '') TableName() string {'' @ nl @
     tab @ ''return '' @ dq @ a2 @ dq @ nl @
     ''}'' @ nl @ nl"

definition stringKeyField :: "string \<Rightarrow> string \<Rightarrow> string" where
  "stringKeyField a1 a2 =
     ''func (o *'' @ a1 @ '') KeyField() string {'' @ nl @
     tab @ ''return '' @ dq @ a2 @ dq @ nl @
     ''}'' @ nl @ nl"

definition stringKeyName :: "string \<Rightarrow> string \<Rightarrow> string" where
  "stringKeyName a1 a2 =
     ''func (o *'' @ a1 @ '') KeyName() string {'' @ nl @
     tab @ ''return '' @ dq @ a2 @ dq @ nl @
     ''}'' @ nl @ nl"

definition stringSelectFields :: "string \<Rightarrow> string \<Rightarrow> string" where
  "stringSelectFields a1 a2 =
     ''func (o *'' @ a1 @ '') SelectFields() string {'' @ nl @
     tab @ ''return '' @ dq @ a2 @ dq @ nl @
     ''}'' @ nl @ nl"

definition stringInsertFields :: "string \<Rightarrow> string \<Rightarrow> string" where
  "stringInsertFields a1 a2 =
     ''func (o *'' @ a1 @ '') InsertFields() string {'' @ nl @
     tab @ ''return '' @ dq @ a2 @ dq @ nl @
     ''}'' @ nl @ nl"

definition stringNewObj :: "string \<Rightarrow> string" where
  "stringNewObj a1 =
     ''func (o '' @ a1 @ '') NewObj() interface{} {'' @ nl @
     tab @ ''return new('' @ a1 @ '')'' @ nl @
     ''}'' @ nl @ nl"

definition stringNames :: "string \<Rightarrow> string \<Rightarrow> string" where
  "stringNames a1 a2 =
     ''func (o *'' @ a1 @ '') Names() []string {'' @ nl @
     tab @ ''return []string{'' @ a2 @ ''}'' @ nl @
     ''}'' @ nl @ nl"

definition stringSQLGet :: "string \<Rightarrow> string \<Rightarrow> string \<Rightarrow> string \<Rightarrow> string" where
  "stringSQLGet a1 a2 a3 a4 =
     ''func (o *'' @ a1 @ '') SQLGet(keys interface{}...) string {'' @ nl @
     tab @ ''return '' @ dq @ ''select '' @ a3 @ '' from '' @ a2 @ '' where '' @ a4 @ '';'' @ dq @ nl @
     ''}'' @ nl @ nl"

text \<open>
  \<^verbatim>\<open>auditString\<close> builds its format string at run time and fills it with the type
  name and the audit fields that are set.
\<close>

definition auditString :: "string \<Rightarrow> string \<Rightarrow> string \<Rightarrow> string" where
  "auditString name u t =
     ''func (o *'' @ name @ '') ModifiedBy(user int64, t time.Time) {'' @ nl @
     (if length u > 0 then ''o.'' @ u @ '' = &user'' @ nl else []) @
     (if length t > 0 then ''o.'' @ t @ '' = t'' @ nl else []) @
     ''}'' @ nl @ nl @ nl"

subsection \<open>buildWrappers\<close>

text \<open>The six slices that \<^verbatim>\<open>buildWrappers\<close> fills before it prints.\<close>

record wrapperVars =
  names :: "string list"
  elem :: "string list"
  ptr :: "string list"
  set_s :: "string list"
  sql :: "string list"
  insert_fields :: "string list"

definition wrapInit :: "SQLInfo \<Rightarrow> wrapperVars" where
  "wrapInit s =
     \<lparr>names = [], elem = [],
      ptr = (if length (KeyName s) > 0 then [''&o.'' @ KeyName s] else []),
      set_s = [],
      sql = (if length (KeyField s) > 0 then [KeyField s] else []),
      insert_fields = []\<rparr>"

text \<open>
  The loop over \<^verbatim>\<open>s.Order\<close>. The test on \<^verbatim>\<open>s.NoUpdate\<close> uses the column
  name \<open>v\<close>, as the source does.
\<close>

fun wrapLoop :: "SQLInfo \<Rightarrow> string list \<Rightarrow> wrapperVars \<Rightarrow> wrapperVars" where
  "wrapLoop s [] w = w"
| "wrapLoop s (k # ks) w =
     wrapLoop s ks
       (if length k > 0 then
          (let v = FieldsAt s k in
             w\<lparr>sql := sql w @ [v],
               names := names w @ [dq @ k @ dq],
               elem := elem w @ [''o.'' @ k],
               ptr := ptr w @ [''&o.'' @ k],
               set_s := set_s w @ [v @ ''=?''],
               insert_fields :=
                 (if v \<notin> NoUpdate s then insert_fields w @ [v] else insert_fields w)\<rparr>)
        else w)"

definition wrapVars :: "SQLInfo \<Rightarrow> wrapperVars" where
  "wrapVars s = wrapLoop s (Order s) (wrapInit s)"

text \<open>
  \<^verbatim>\<open>g.Printf\<close> appends to the buffer of the generator. The text of every call
  of \<^verbatim>\<open>g.Printf\<close> in \<^verbatim>\<open>buildWrappers\<close> has a definition of its own; the two
  calls for \<^verbatim>\<open>Key\<close> and \<^verbatim>\<open>SetID\<close>, which stand under one test, share one.
\<close>

definition Printf :: "string \<Rightarrow> string \<Rightarrow> string" where
  "Printf buf text = buf @ text"

definition printGeneratorComment :: "SQLInfo \<Rightarrow> string" where
  "printGeneratorComment s =
     nl @ nl @ ''//'' @ nl @ ''// '' @ Name s @ '' DBObject generator'' @ nl @ ''//'' @ nl"

definition printNewObj :: "SQLInfo \<Rightarrow> string" where
  "printNewObj s = stringNewObj (Name s)"

definition printInterfaceComment :: "SQLInfo \<Rightarrow> string" where
  "printInterfaceComment s =
     nl @ ''//'' @ nl @ ''// '' @ Name s @ '' DBObject interface functions'' @ nl @ ''//'' @ nl"

definition printInsertValues :: "SQLInfo \<Rightarrow> string" where
  "printInsertValues s = stringInsertValues (Name s) (Join (elem (wrapVars s)) '','')"

text \<open>\<^verbatim>\<open>elem\<close> after the key has been appended to it.\<close>

definition elemWithKey :: "SQLInfo \<Rightarrow> string list" where
  "elemWithKey s =
     (if length (KeyName s) > 0 then elem (wrapVars s) @ [''o.'' @ KeyName s]
      else elem (wrapVars s))"

definition printUpdateValues :: "SQLInfo \<Rightarrow> string" where
  "printUpdateValues s = stringUpdateValues (Name s) (Join (elemWithKey s) '','')"

definition printMemberPointers :: "SQLInfo \<Rightarrow> string" where
  "printMemberPointers s = stringMemberPointers (Name s) (Join (ptr (wrapVars s)) '','')"

definition printKeySetID :: "SQLInfo \<Rightarrow> string" where
  "printKeySetID s =
     (if length (KeyField s) > 0
      then stringKey (Name s) (KeyName s) @ stringSetID (Name s) (KeyName s)
      else stringNoKey (Name s) @ stringNoSetID (Name s))"

definition printSQLGet :: "SQLInfo \<Rightarrow> string" where
  "printSQLGet s = stringSQLGet (Name s) (Table s) (Join (sql (wrapVars s)) '','') []"

definition printTableName :: "SQLInfo \<Rightarrow> string" where
  "printTableName s = stringTableName (Name s) (Table s)"

definition printSelectFields :: "SQLInfo \<Rightarrow> string" where
  "printSelectFields s = stringSelectFields (Name s) (Join (sql (wrapVars s)) '','')"

definition printInsertFields :: "SQLInfo \<Rightarrow> string" where
  "printInsertFields s = stringInsertFields (Name s) (Join (sql (wrapVars s)) '','')"

definition printKeyField :: "SQLInfo \<Rightarrow> string" where
  "printKeyField s = stringKeyField (Name s) (KeyField s)"

definition printKeyName :: "SQLInfo \<Rightarrow> string" where
  "printKeyName s = stringKeyName (Name s) (KeyName s)"

definition printNames :: "SQLInfo \<Rightarrow> string" where
  "printNames s = stringNames (Name s) (Join (names (wrapVars s)) '','')"

text \<open>
  The last call passes the result of \<^verbatim>\<open>auditString\<close> as the format itself, with
  no argument. The result holds identifiers and fixed text only, so it has no verb
  and is appended as it is.
\<close>

definition printAudit :: "SQLInfo \<Rightarrow> string" where
  "printAudit s = auditString (Name s) (UserField s) (TimeField s)"

definition buildWrappers :: "SQLInfo \<Rightarrow> string \<Rightarrow> string" where
  "buildWrappers s buf0 =
     (let buf = Printf buf0 (printGeneratorComment s);
          buf = Printf buf (printNewObj s);
          buf = Printf buf (printInterfaceComment s);
          buf = Printf buf (printInsertValues s);
          buf = Printf buf (printUpdateValues s);
          buf = Printf buf (printMemberPointers s);
          buf = Printf buf (printKeySetID s);
          buf = Printf buf (printSQLGet s);
          buf = Printf buf (printTableName s);
          buf = Printf buf (printSelectFields s);
          buf = Printf buf (printInsertFields s);
          buf = Printf buf (printKeyField s);
          buf = Printf buf (printKeyName s);
          buf = Printf buf (printNames s);
          buf = Printf buf (printAudit s)
      in buf)"

subsection \<open>genDecl, generate and main\<close>

text \<open>
  The syntax tree as \<^verbatim>\<open>ast.Inspect\<close> walks it. \<^verbatim>\<open>genDecl\<close> tells three kinds
  of node apart: a type specification (with the name it declares), a struct type
  (with its field list) and every other node. Each node carries the nodes that the
  walk visits below it, in the order of the walk.
\<close>

datatype ast_Node =
    TypeSpec string "ast_Node list"
  | StructType "ast_Field list" "ast_Node list"
  | OtherNode "ast_Node list"

record File =
  file_f :: "ast_Node option"
  TypeName :: string
  findName :: string
  values_f :: "SQLInfo list"

text \<open>
  \<^verbatim>\<open>genDecl\<close> returns whether the walk descends below the node, and updates the
  file it is a method of.
\<close>

fun genDecl :: "ast_Node \<Rightarrow> File \<Rightarrow> panic + bool \<times> File" where
  "genDecl (TypeSpec x_Name below) f = Inr (True, f\<lparr>TypeName := x_Name\<rparr>)"
| "genDecl (StructType x_Fields below) f =
     (if length (findName f) = 0 \<or> findName f = TypeName f then
        (case sqlTags (TypeName f) x_Fields of
           Inl e \<Rightarrow> Inl e
         | Inr None \<Rightarrow> Inr (False, f)
         | Inr (Some tags) \<Rightarrow>
             Inr (False, f\<lparr>values_f := values_f f @ [tags\<lparr>Name := TypeName f\<rparr>]\<rparr>))
      else Inr (True, f))"
| "genDecl (OtherNode below) f = Inr (True, f)"

text \<open>
  \<^verbatim>\<open>ast.Inspect(node, f)\<close> calls \<open>f\<close> on the node and, when it returns true, walks
  the nodes below and then calls \<open>f(nil)\<close>, which in \<^verbatim>\<open>genDecl\<close> matches no case
  and changes nothing.
\<close>

fun Inspect :: "ast_Node \<Rightarrow> File \<Rightarrow> panic + File"
  and InspectList :: "ast_Node list \<Rightarrow> File \<Rightarrow> panic + File" where
  "Inspect (TypeSpec x_Name below) f =
     (case genDecl (TypeSpec x_Name below) f of
        Inl e \<Rightarrow> Inl e
      | Inr (descend, f1) \<Rightarrow> if descend then InspectList below f1 else Inr f1)"
| "Inspect (StructType x_Fields below) f =
     (case genDecl (StructType x_Fields below) f of
        Inl e \<Rightarrow> Inl e
      | Inr (descend, f1) \<Rightarrow> if descend then InspectList below f1 else Inr f1)"
| "Inspect (OtherNode below) f =
     (case genDecl (OtherNode below) f of
        Inl e \<Rightarrow> Inl e
      | Inr (descend, f1) \<Rightarrow> if descend then InspectList below f1 else Inr f1)"
| "InspectList [] f = Inr f"
| "InspectList (node # nodes) f =
     (case Inspect node f of
        Inl e \<Rightarrow> Inl e
      | Inr f1 \<Rightarrow> InspectList nodes f1)"

text \<open>
  The body of the loop of \<^verbatim>\<open>generate\<close> for one file: the file keeps the
  descriptors of earlier calls in \<^verbatim>\<open>values\<close>, and every descriptor it holds is
  printed.
\<close>

definition generateFile :: "string \<Rightarrow> File \<Rightarrow> string \<Rightarrow> panic + File \<times> string" where
  "generateFile typeName file0 buf0 =
     (let f = file0\<lparr>findName := typeName\<rparr> in
      case file_f f of
        None \<Rightarrow> Inr (f, buf0)
      | Some root \<Rightarrow>
          (case Inspect root f of
             Inl e \<Rightarrow> Inl e
           | Inr f1 \<Rightarrow> Inr (f1, fold buildWrappers (values_f f1) buf0)))"

fun generateFiles :: "string \<Rightarrow> File list \<Rightarrow> string \<Rightarrow> panic + File list \<times> string" where
  "generateFiles typeName [] buf0 = Inr ([], buf0)"
| "generateFiles typeName (file0 # rest) buf0 =
     (case generateFile typeName file0 buf0 of
        Inl e \<Rightarrow> Inl e
      | Inr (f1, buf1) \<Rightarrow>
          (case generateFiles typeName rest buf1 of
             Inl e \<Rightarrow> Inl e
           | Inr (rest1, buf2) \<Rightarrow> Inr (f1 # rest1, buf2)))"

text \<open>
  Of \<^verbatim>\<open>Package\<close> the generation reads the name and the files; of
  \<^verbatim>\<open>Generator\<close> the buffer and the package.
\<close>

record Package =
  name :: string
  files :: "File list"

record Generator =
  buf :: string
  pkg :: Package

definition generate :: "string \<Rightarrow> Generator \<Rightarrow> panic + Generator" where
  "generate typeName g =
     (case generateFiles typeName (files (pkg g)) (buf g) of
        Inl e \<Rightarrow> Inl e
      | Inr (fs, b) \<Rightarrow> Inr (g\<lparr>buf := b, pkg := (pkg g)\<lparr>files := fs\<rparr>\<rparr>))"

fun generateNames :: "string list \<Rightarrow> Generator \<Rightarrow> panic + Generator" where
  "generateNames [] g = Inr g"
| "generateNames (typeName # later) g =
     (case generate typeName g of
        Inl e \<Rightarrow> Inl e
      | Inr g1 \<Rightarrow> generateNames later g1)"

text \<open>\<^verbatim>\<open>strings.Split(s, ",")\<close>, with the separator as a character.\<close>

fun Split :: "string \<Rightarrow> char \<Rightarrow> string list" where
  "Split [] sep = [[]]"
| "Split (c # cs) sep =
     (if c = sep then [] # Split cs sep
      else (case Split cs sep of
              [] \<Rightarrow> [[c]]
            | x # xs \<Rightarrow> (c # x) # xs))"

text \<open>
  \<^verbatim>\<open>parsePackage\<close> makes one \<^verbatim>\<open>File\<close> for each parsed source file, with all
  other fields at their zero value.
\<close>

definition parsedFile :: "ast_Node option \<Rightarrow> File" where
  "parsedFile parsed = \<lparr>file_f = parsed, TypeName = [], findName = [], values_f = []\<rparr>"

text \<open>
  \<^verbatim>\<open>main\<close> from the parsed package on: the command line after the program name,
  the value of the \<^verbatim>\<open>-type\<close> flag, the package name and the parsed files give the
  buffer that is handed to \<^verbatim>\<open>format\<close>.
\<close>

definition main_buf ::
    "string list \<Rightarrow> string \<Rightarrow> string \<Rightarrow> ast_Node option list \<Rightarrow> panic + string" where
  "main_buf os_Args typeNames pkg_name parsed =
     (let names = Split typeNames (CHR '','');
          g = \<lparr>buf = [], pkg = \<lparr>name = pkg_name, files = map parsedFile parsed\<rparr>\<rparr>;
          g = g\<lparr>buf := Printf (buf g)
                (''// generated by '' @ [CHR 0x27] @ ''dbgen '' @ Join os_Args '' '' @
                 [CHR 0x27] @ ''; DO NOT EDIT'' @ nl)\<rparr>;
          g = g\<lparr>buf := Printf (buf g) (nl @ ''package '' @ name (pkg g) @ nl)\<rparr>;
          g = g\<lparr>buf := Printf (buf g)
                (nl @ nl @ ''import ('' @ nl @ tab @ dq @ ''time'' @ dq @ nl @ '')'' @ nl @ nl)\<rparr>
      in case (if length names = 0 then generate [] g else generateNames names g) of
           Inl e \<Rightarrow> Inl e
         | Inr g1 \<Rightarrow> Inr (buf g1))"

text \<open>
  \<^verbatim>\<open>format\<close>: the result of \<^verbatim>\<open>go/format.Source\<close>, or the buffer as it is when
  that fails. The formatter is a parameter.
\<close>

definition format :: "(string \<Rightarrow> string option) \<Rightarrow> string \<Rightarrow> string" where
  "format format_Source b = (case format_Source b of None \<Rightarrow> b | Some src \<Rightarrow> src)"

subsection \<open>Vocabulary for the properties\<close>

text \<open>
  The value of a key in the tag of a field (empty without a tag), and the first name
  of a field. A field is persisted when its \<^verbatim>\<open>sql\<close> value is not empty. The
  persisted fields of a struct are its key fields, which also have a \<^verbatim>\<open>key\<close> value
  and of which the last one is the key of the descriptor, and its column fields,
  which have none.
\<close>

definition tagValue :: "ast_Field \<Rightarrow> string \<Rightarrow> string" where
  "tagValue field key = (case Tag field of None \<Rightarrow> [] | Some tag \<Rightarrow> Get tag key)"

definition fieldName :: "ast_Field \<Rightarrow> string" where
  "fieldName field = (case Names field of [] \<Rightarrow> [] | n # _ \<Rightarrow> n)"

definition columnFields :: "ast_Field list \<Rightarrow> ast_Field list" where
  "columnFields fs = filter (\<lambda>f. tagValue f ''sql'' \<noteq> [] \<and> tagValue f ''key'' = []) fs"

definition keyFields :: "ast_Field list \<Rightarrow> ast_Field list" where
  "keyFields fs = filter (\<lambda>f. tagValue f ''sql'' \<noteq> [] \<and> tagValue f ''key'' \<noteq> []) fs"

definition tableFields :: "ast_Field list \<Rightarrow> ast_Field list" where
  "tableFields fs = filter (\<lambda>f. tagValue f ''sql'' \<noteq> [] \<and> tagValue f ''table'' \<noteq> []) fs"

text \<open>The names of a field are identifiers, which are not empty.\<close>

definition identifiers :: "ast_Field \<Rightarrow> bool" where
  "identifiers f = ([] \<notin> set (Names f))"

text \<open>
  The key of the descriptor, when there is one, followed by the column fields in
  declaration order; and the column the descriptor holds for such a field.
\<close>

definition persistedOrder :: "ast_Field list \<Rightarrow> ast_Field list" where
  "persistedOrder fs =
     (if keyFields fs = [] then [] else [last (keyFields fs)]) @ columnFields fs"

definition columnOf :: "SQLInfo \<Rightarrow> ast_Field \<Rightarrow> string" where
  "columnOf s f = (if tagValue f ''key'' \<noteq> [] then KeyField s else FieldsAt s (fieldName f))"

text \<open>
  Two inputs that are identical except for the values of the \<^verbatim>\<open>update\<close> tags: the
  tags have the same keys in the same order, and the same value for every key other
  than \<^verbatim>\<open>update\<close>; everything else is equal.
\<close>

definition sameButUpdateTag :: "StructTag \<Rightarrow> StructTag \<Rightarrow> bool" where
  "sameButUpdateTag t t' =
     list_all2 (\<lambda>p q. fst p = fst q \<and> (fst p = ''update'' \<or> snd p = snd q)) t t'"

definition sameButUpdateField :: "ast_Field \<Rightarrow> ast_Field \<Rightarrow> bool" where
  "sameButUpdateField f f' =
     (Names f = Names f' \<and> rel_option sameButUpdateTag (Tag f) (Tag f'))"

fun sameButUpdate :: "ast_Node \<Rightarrow> ast_Node \<Rightarrow> bool" where
  "sameButUpdate (TypeSpec x below) (TypeSpec x' below') =
     (x = x' \<and> list_all2 sameButUpdate below below')"
| "sameButUpdate (StructType fl below) (StructType fl' below') =
     (list_all2 sameButUpdateField fl fl' \<and> list_all2 sameButUpdate below below')"
| "sameButUpdate (OtherNode below) (OtherNode below') = list_all2 sameButUpdate below below'"
| "sameButUpdate _ _ = False"

text \<open>Descriptors, and files in the course of a run, that differ in \<^verbatim>\<open>NoUpdate\<close> only.\<close>

definition sameButNoUpdate :: "SQLInfo \<Rightarrow> SQLInfo \<Rightarrow> bool" where
  "sameButNoUpdate s s' =
     (Name s = Name s' \<and> Table s = Table s' \<and> KeyName s = KeyName s' \<and>
      KeyField s = KeyField s' \<and> UserField s = UserField s' \<and>
      TimeField s = TimeField s' \<and> Order s = Order s' \<and> Fields s = Fields s')"

definition sameFile :: "File \<Rightarrow> File \<Rightarrow> bool" where
  "sameFile f f' =
     (rel_option sameButUpdate (file_f f) (file_f f') \<and> TypeName f = TypeName f' \<and>
      findName f = findName f' \<and> list_all2 sameButNoUpdate (values_f f) (values_f f'))"

text \<open>The nodes below a node.\<close>

fun belowOf :: "ast_Node \<Rightarrow> ast_Node list" where
  "belowOf (TypeSpec x below) = below"
| "belowOf (StructType fl below) = below"
| "belowOf (OtherNode below) = below"

definition sameGenerator :: "Generator \<Rightarrow> Generator \<Rightarrow> bool" where
  "sameGenerator g g' =
     (buf g = buf g' \<and> name (pkg g) = name (pkg g') \<and>
      list_all2 sameFile (files (pkg g)) (files (pkg g')))"

subsection \<open>Example structs\<close>

text \<open>
  The tree of a source file that holds the one declaration
  \<^verbatim>\<open>type T struct { ... }\<close>: the file, the declaration, the type specification,
  and below it the identifier and the struct type.
\<close>

definition structFile :: "string \<Rightarrow> ast_Field list \<Rightarrow> ast_Node" where
  "structFile T fl = OtherNode [OtherNode [TypeSpec T [OtherNode [], StructType fl []]]]"

text \<open>
  The struct of the specification's example,
  \<^verbatim>\<open>{ID int64 `sql:"id" key:"true" table:"t"`; Name string `sql:"name"`}\<close>, and the
  descriptor \<^verbatim>\<open>sqlTags\<close> builds for it.
\<close>

definition exampleStruct :: "ast_Field list" where
  "exampleStruct =
     [\<lparr>Names = [''ID''], Tag = Some [(''sql'', ''id''), (''key'', ''true''), (''table'', ''t'')]\<rparr>,
      \<lparr>Names = [''Name''], Tag = Some [(''sql'', ''name'')]\<rparr>]"

definition exampleInfo :: SQLInfo where
  "exampleInfo =
     \<lparr>Name = [], Table = ''t'', KeyName = ''ID'', KeyField = ''id'', UserField = [],
      TimeField = [], Order = [''Name''], Fields = [''Name'' \<mapsto> ''name''], NoUpdate = {}\<rparr>"

text \<open>\<^verbatim>\<open>testStruct\<close> of \<^verbatim>\<open>src/dbgen/struct_test.go\<close>.\<close>

definition testStruct :: "ast_Field list" where
  "testStruct =
     [\<lparr>Names = [''ID''],
       Tag = Some [(''sql'', ''id''), (''key'', ''true''), (''table'', ''teststruct'')]\<rparr>,
      \<lparr>Names = [''Name''], Tag = Some [(''sql'', ''name'')]\<rparr>,
      \<lparr>Names = [''Kind''], Tag = Some [(''sql'', ''kind'')]\<rparr>,
      \<lparr>Names = [''Data''], Tag = Some [(''sql'', ''data'')]\<rparr>,
      \<lparr>Names = [''Created''],
       Tag = Some [(''sql'', ''created''), (''update'', ''false''), (''audit'', ''time'')]\<rparr>]"

definition testInfo :: SQLInfo where
  "testInfo =
     \<lparr>Name = [], Table = ''teststruct'', KeyName = ''ID'', KeyField = ''id'', UserField = [],
      TimeField = ''Created'', Order = [''Name'', ''Kind'', ''Data'', ''Created''],
      Fields = [''Name'' \<mapsto> ''name'', ''Kind'' \<mapsto> ''kind'', ''Data'' \<mapsto> ''data'',
                ''Created'' \<mapsto> ''created''],
      NoUpdate = {''Created''}\<rparr>"

text \<open>A key field that also carries \<^verbatim>\<open>update:"false"\<close>.\<close>

definition keyNoUpdateStruct :: "ast_Field list" where
  "keyNoUpdateStruct =
     [\<lparr>Names = [''ID''],
       Tag = Some [(''sql'', ''id''), (''key'', ''true''), (''update'', ''false'')]\<rparr>,
      \<lparr>Names = [''Name''], Tag = Some [(''sql'', ''name''), (''update'', ''no'')]\<rparr>]"

definition keyNoUpdateInfo :: SQLInfo where
  "keyNoUpdateInfo =
     \<lparr>Name = [], Table = [], KeyName = ''ID'', KeyField = ''id'', UserField = [],
      TimeField = [], Order = [''Name''], Fields = [''Name'' \<mapsto> ''name''],
      NoUpdate = {''ID''}\<rparr>"

text \<open>
  Two fields with a \<^verbatim>\<open>table\<close> value, the second of them without a \<^verbatim>\<open>sql\<close>
  value.
\<close>

definition twoTablesStruct :: "ast_Field list" where
  "twoTablesStruct =
     [\<lparr>Names = [''A''], Tag = Some [(''sql'', ''a''), (''table'', ''t1'')]\<rparr>,
      \<lparr>Names = [''B''], Tag = Some [(''table'', ''t2'')]\<rparr>]"

definition twoTablesInfo :: SQLInfo where
  "twoTablesInfo =
     \<lparr>Name = [], Table = ''t1'', KeyName = [], KeyField = [], UserField = [],
      TimeField = [], Order = [''A''], Fields = [''A'' \<mapsto> ''a''], NoUpdate = {}\<rparr>"

text \<open>Two persisted fields with a \<^verbatim>\<open>table\<close> value.\<close>

definition lastTableStruct :: "ast_Field list" where
  "lastTableStruct =
     [\<lparr>Names = [''A''], Tag = Some [(''sql'', ''a''), (''table'', ''t1'')]\<rparr>,
      \<lparr>Names = [''B''], Tag = Some [(''sql'', ''b''), (''table'', ''t2'')]\<rparr>]"

definition lastTableInfo :: SQLInfo where
  "lastTableInfo =
     \<lparr>Name = [], Table = ''t2'', KeyName = [], KeyField = [], UserField = [],
      TimeField = [], Order = [''A'', ''B''], Fields = [''A'' \<mapsto> ''a'', ''B'' \<mapsto> ''b''],
      NoUpdate = {}\<rparr>"

text \<open>A field with an \<^verbatim>\<open>audit\<close> and an \<^verbatim>\<open>update\<close> value and no \<^verbatim>\<open>sql\<close> value.\<close>

definition auditOnlyField :: ast_Field where
  "auditOnlyField =
     \<lparr>Names = [''UserID''], Tag = Some [(''audit'', ''user''), (''update'', ''false'')]\<rparr>"

definition auditOnlyStruct :: "ast_Field list" where
  "auditOnlyStruct = [\<lparr>Names = [''Name''], Tag = Some [(''sql'', ''name'')]\<rparr>, auditOnlyField]"

definition auditOnlyInfo :: SQLInfo where
  "auditOnlyInfo =
     \<lparr>Name = [], Table = [], KeyName = [], KeyField = [], UserField = ''UserID'',
      TimeField = [], Order = [''Name''], Fields = [''Name'' \<mapsto> ''name''],
      NoUpdate = {''UserID''}\<rparr>"

text \<open>
  \<^verbatim>\<open>type T struct { time.Time `audit:"time"` }\<close>: an embedded field, which has no
  names, with an \<^verbatim>\<open>audit\<close> value and no \<^verbatim>\<open>sql\<close> value.
\<close>

definition embeddedAuditStruct :: "ast_Field list" where
  "embeddedAuditStruct = [\<lparr>Names = [], Tag = Some [(''audit'', ''time'')]\<rparr>]"

definition embeddedAuditFile :: ast_Node where
  "embeddedAuditFile = structFile ''T'' embeddedAuditStruct"

text \<open>
  A source file that declares \<^verbatim>\<open>testStruct\<close>, and the same file with
  \<^verbatim>\<open>update:"true"\<close> on the field \<^verbatim>\<open>Created\<close>.
\<close>

definition testFile :: ast_Node where
  "testFile = structFile ''testStruct'' testStruct"

definition testStructUpdatable :: "ast_Field list" where
  "testStructUpdatable =
     [\<lparr>Names = [''ID''],
       Tag = Some [(''sql'', ''id''), (''key'', ''true''), (''table'', ''teststruct'')]\<rparr>,
      \<lparr>Names = [''Name''], Tag = Some [(''sql'', ''name'')]\<rparr>,
      \<lparr>Names = [''Kind''], Tag = Some [(''sql'', ''kind'')]\<rparr>,
      \<lparr>Names = [''Data''], Tag = Some [(''sql'', ''data'')]\<rparr>,
      \<lparr>Names = [''Created''],
       Tag = Some [(''sql'', ''created''), (''update'', ''true''), (''audit'', ''time'')]\<rparr>]"

definition testFileUpdatable :: ast_Node where
  "testFileUpdatable = structFile ''testStruct'' testStructUpdatable"

text \<open>
  \<^verbatim>\<open>type T struct { X int `sql:"x"`; time.Time `update:"false"` }\<close>, and the same
  struct with \<^verbatim>\<open>update:"true"\<close> on the embedded field; the descriptor of the
  second.
\<close>

definition embeddedUpdateStruct :: "ast_Field list" where
  "embeddedUpdateStruct =
     [\<lparr>Names = [''X''], Tag = Some [(''sql'', ''x'')]\<rparr>,
      \<lparr>Names = [], Tag = Some [(''update'', ''false'')]\<rparr>]"

definition embeddedUpdateTrueStruct :: "ast_Field list" where
  "embeddedUpdateTrueStruct =
     [\<lparr>Names = [''X''], Tag = Some [(''sql'', ''x'')]\<rparr>,
      \<lparr>Names = [], Tag = Some [(''update'', ''true'')]\<rparr>]"

definition embeddedUpdateTrueInfo :: SQLInfo where
  "embeddedUpdateTrueInfo =
     \<lparr>Name = [], Table = [], KeyName = [], KeyField = [], UserField = [],
      TimeField = [], Order = [''X''], Fields = [''X'' \<mapsto> ''x''], NoUpdate = {}\<rparr>"

definition embeddedUpdateFile :: ast_Node where
  "embeddedUpdateFile = structFile ''T'' embeddedUpdateStruct"

definition embeddedUpdateTrueFile :: ast_Node where
  "embeddedUpdateTrueFile = structFile ''T'' embeddedUpdateTrueStruct"

section \<open>Properties\<close>

subsection \<open>The tag parser, field by field\<close>

lemma ParseBool_Nil: "ParseBool [] = None"
  by (simp add: ParseBool_def)

lemma Name0_Inr: "Name0 field = Inr n \<Longrightarrow> n = fieldName field \<and> Names field \<noteq> []"
  by (cases "Names field") (simp_all add: Name0_def fieldName_def)

lemma Name0_named: "Names field \<noteq> [] \<Longrightarrow> Name0 field = Inr (fieldName field)"
  by (cases "Names field") (simp_all add: Name0_def fieldName_def)

lemma Name0_embedded: "Names field = [] \<Longrightarrow> Name0 field = Inl IndexOutOfRange"
  by (simp add: Name0_def)

lemma sqlPart_Inr:
  assumes "sqlPart tag field (info, good) = Inr (info', good')"
  shows "info' =
     (if Get tag ''sql'' = [] then info
      else if Get tag ''key'' \<noteq> [] then
        info\<lparr>Table := (if Get tag ''table'' \<noteq> [] then Get tag ''table'' else Table info),
             KeyName := fieldName field, KeyField := Get tag ''sql''\<rparr>
      else
        info\<lparr>Table := (if Get tag ''table'' \<noteq> [] then Get tag ''table'' else Table info),
             Fields := (Fields info)(fieldName field \<mapsto> Get tag ''sql''),
             Order := Order info @ [fieldName field]\<rparr>)"
    and "good' = (good \<or> Get tag ''sql'' \<noteq> [])"
    and "Get tag ''sql'' \<noteq> [] \<Longrightarrow> Names field \<noteq> []"
proof -
  show "Get tag ''sql'' \<noteq> [] \<Longrightarrow> Names field \<noteq> []"
    using assms by (cases "Names field") (simp_all add: sqlPart_def Let_def Name0_def split: if_splits)
  show "good' = (good \<or> Get tag ''sql'' \<noteq> [])"
    using assms by (cases "Names field") (simp_all add: sqlPart_def Let_def Name0_def split: if_splits)
  show "info' =
     (if Get tag ''sql'' = [] then info
      else if Get tag ''key'' \<noteq> [] then
        info\<lparr>Table := (if Get tag ''table'' \<noteq> [] then Get tag ''table'' else Table info),
             KeyName := fieldName field, KeyField := Get tag ''sql''\<rparr>
      else
        info\<lparr>Table := (if Get tag ''table'' \<noteq> [] then Get tag ''table'' else Table info),
             Fields := (Fields info)(fieldName field \<mapsto> Get tag ''sql''),
             Order := Order info @ [fieldName field]\<rparr>)"
    using assms by (cases "Names field") (auto simp add: sqlPart_def Let_def Name0_def fieldName_def split: if_splits)
qed

lemma auditPart_Inr:
  assumes "auditPart tag field (info, good) = Inr (info', good')"
  shows "info' =
     (if Get tag ''audit'' = ''user'' then info\<lparr>UserField := fieldName field\<rparr>
      else if Get tag ''audit'' = ''time'' then info\<lparr>TimeField := fieldName field\<rparr>
      else info)"
    and "good' = good"
proof -
  show "good' = good"
    using assms by (cases "Names field") (simp_all add: auditPart_def Let_def Name0_def split: if_splits)
  show "info' =
     (if Get tag ''audit'' = ''user'' then info\<lparr>UserField := fieldName field\<rparr>
      else if Get tag ''audit'' = ''time'' then info\<lparr>TimeField := fieldName field\<rparr>
      else info)"
  proof (cases "Get tag ''audit'' = ''user''")
    case True
    then show ?thesis using assms
      by (cases "Names field") (simp_all add: auditPart_def Let_def Name0_def fieldName_def)
  next
    case False
    note nu = this
    show ?thesis
    proof (cases "Get tag ''audit'' = ''time''")
      case True
      then show ?thesis using assms nu
        by (cases "Names field") (simp_all add: auditPart_def Let_def Name0_def fieldName_def)
    next
      case False
      then show ?thesis using assms nu
        by (simp add: auditPart_def Let_def split: if_splits)
    qed
  qed
qed

lemma updatePart_Inr:
  assumes "updatePart tag field (info, good) = Inr (info', good')"
  shows "info' =
     (if ParseBool (Get tag ''update'') = Some False
      then info\<lparr>NoUpdate := insert (fieldName field) (NoUpdate info)\<rparr> else info)"
    and "good' = good"
proof -
  show "good' = good"
    using assms
    by (cases "Names field"; cases "ParseBool (Get tag ''update'')")
       (simp_all add: updatePart_def Let_def Name0_def split: if_splits)
  show "info' =
     (if ParseBool (Get tag ''update'') = Some False
      then info\<lparr>NoUpdate := insert (fieldName field) (NoUpdate info)\<rparr> else info)"
  proof (cases "ParseBool (Get tag ''update'')")
    case None
    then show ?thesis using assms by (simp add: updatePart_def Let_def split: if_splits)
  next
    case (Some up)
    then have "Get tag ''update'' \<noteq> []" using ParseBool_Nil by auto
    then show ?thesis using assms Some
      by (cases "Names field"; cases up)
         (simp_all add: updatePart_def Let_def Name0_def fieldName_def split: if_splits)
  qed
qed

lemma tagField_untagged: "Tag f = None \<Longrightarrow> tagField f st = Inr st"
  by (simp add: tagField_def)

lemma tagField_Some_Inr:
  assumes "Tag f = Some tag" and "tagField f (info, good) = Inr (info', good')"
  obtains i1 g1 i2 g2 where
    "sqlPart tag f (info, good) = Inr (i1, g1)"
    "auditPart tag f (i1, g1) = Inr (i2, g2)"
    "updatePart tag f (i2, g2) = Inr (info', good')"
  using assms by (auto simp: tagField_def split: sum.splits)

lemma tagField_Inr:
  assumes "tagField f (info, good) = Inr (info', good')"
  shows "info' = info
      \<lparr>Table :=
         (if tagValue f ''sql'' \<noteq> [] \<and> tagValue f ''table'' \<noteq> []
          then tagValue f ''table'' else Table info),
       KeyName :=
         (if tagValue f ''sql'' \<noteq> [] \<and> tagValue f ''key'' \<noteq> []
          then fieldName f else KeyName info),
       KeyField :=
         (if tagValue f ''sql'' \<noteq> [] \<and> tagValue f ''key'' \<noteq> []
          then tagValue f ''sql'' else KeyField info),
       Order :=
         Order info @
         (if tagValue f ''sql'' \<noteq> [] \<and> tagValue f ''key'' = [] then [fieldName f] else []),
       Fields :=
         (if tagValue f ''sql'' \<noteq> [] \<and> tagValue f ''key'' = []
          then (Fields info)(fieldName f \<mapsto> tagValue f ''sql'') else Fields info),
       UserField :=
         (if tagValue f ''audit'' = ''user'' then fieldName f else UserField info),
       TimeField :=
         (if tagValue f ''audit'' = ''time'' then fieldName f else TimeField info),
       NoUpdate :=
         (if ParseBool (tagValue f ''update'') = Some False
          then insert (fieldName f) (NoUpdate info) else NoUpdate info)\<rparr>"
    (is "info' = ?rhs")
    and "good' = (good \<or> tagValue f ''sql'' \<noteq> [])"
proof -
  have "info' = ?rhs \<and> good' = (good \<or> tagValue f ''sql'' \<noteq> [])"
  proof (cases "Tag f")
    case None
    then have "info' = info" "good' = good" "\<And>k. tagValue f k = []"
      using assms by (simp_all add: tagField_untagged tagValue_def)
    then show ?thesis
      by (simp add: ParseBool_Nil)
  next
    case (Some tag)
    then have tv: "\<And>k. tagValue f k = Get tag k"
      by (simp add: tagValue_def)
    from Some assms obtain i1 g1 i2 g2 where
      s1: "sqlPart tag f (info, good) = Inr (i1, g1)" and
      s2: "auditPart tag f (i1, g1) = Inr (i2, g2)" and
      s3: "updatePart tag f (i2, g2) = Inr (info', good')"
      by (rule tagField_Some_Inr)
    note e1 = sqlPart_Inr(1,2)[OF s1]
    note e2 = auditPart_Inr[OF s2]
    note e3 = updatePart_Inr[OF s3]
    show ?thesis
      unfolding tv e3 e2 e1 by simp
  qed
  then show "info' = ?rhs" and "good' = (good \<or> tagValue f ''sql'' \<noteq> [])"
    by simp_all
qed

lemma tagField_named:
  assumes "tagField f (info, good) = Inr (info', good')"
    and "tagValue f ''sql'' \<noteq> []"
  shows "Names f \<noteq> []"
proof (cases "Tag f")
  case None
  then show ?thesis using assms(2) by (simp add: tagValue_def)
next
  case (Some tag)
  from Some assms(1) obtain i1 g1 i2 g2 where
    s1: "sqlPart tag f (info, good) = Inr (i1, g1)" and
    s2: "auditPart tag f (i1, g1) = Inr (i2, g2)" and
    s3: "updatePart tag f (i2, g2) = Inr (info', good')"
    by (rule tagField_Some_Inr)
  from sqlPart_Inr(3)[OF s1] assms(2) Some show ?thesis
    by (simp add: tagValue_def)
qed

lemma tagFields_Cons_Inr:
  assumes "tagFields (f # fs) (info, good) = Inr (info', good')"
  obtains i1 g1 where
    "tagField f (info, good) = Inr (i1, g1)"
    "tagFields fs (i1, g1) = Inr (info', good')"
  using assms by (auto split: sum.splits)

lemma tagFields_Name:
  "tagFields fs (info, good) = Inr (info', good') \<Longrightarrow> Name info' = Name info"
proof (induction fs arbitrary: info good)
  case Nil
  then show ?case by simp
next
  case (Cons f fs)
  from Cons.prems obtain i1 g1 where
    a: "tagField f (info, good) = Inr (i1, g1)" and
    b: "tagFields fs (i1, g1) = Inr (info', good')"
    by (rule tagFields_Cons_Inr)
  have "Name i1 = Name info"
    by (subst tagField_Inr(1)[OF a]) simp
  with Cons.IH[OF b] show ?case by simp
qed

lemma tagFields_Order:
  "tagFields fs (info, good) = Inr (info', good') \<Longrightarrow>
   Order info' = Order info @ map fieldName (columnFields fs)"
proof (induction fs arbitrary: info good)
  case Nil
  then show ?case by (simp add: columnFields_def)
next
  case (Cons f fs)
  from Cons.prems obtain i1 g1 where
    a: "tagField f (info, good) = Inr (i1, g1)" and
    b: "tagFields fs (i1, g1) = Inr (info', good')"
    by (rule tagFields_Cons_Inr)
  have "Order i1 = Order info @
      (if tagValue f ''sql'' \<noteq> [] \<and> tagValue f ''key'' = [] then [fieldName f] else [])"
    by (subst tagField_Inr(1)[OF a]) simp
  with Cons.IH[OF b] show ?case by (simp add: columnFields_def)
qed

lemma tagFields_Table:
  "tagFields fs (info, good) = Inr (info', good') \<Longrightarrow>
   Table info' =
     (if tableFields fs = [] then Table info else tagValue (last (tableFields fs)) ''table'')"
proof (induction fs arbitrary: info good)
  case Nil
  then show ?case by (simp add: tableFields_def)
next
  case (Cons f fs)
  from Cons.prems obtain i1 g1 where
    a: "tagField f (info, good) = Inr (i1, g1)" and
    b: "tagFields fs (i1, g1) = Inr (info', good')"
    by (rule tagFields_Cons_Inr)
  have "Table i1 =
      (if tagValue f ''sql'' \<noteq> [] \<and> tagValue f ''table'' \<noteq> []
       then tagValue f ''table'' else Table info)"
    by (subst tagField_Inr(1)[OF a]) simp
  with Cons.IH[OF b] show ?case by (simp add: tableFields_def)
qed

lemma tagFields_KeyName:
  "tagFields fs (info, good) = Inr (info', good') \<Longrightarrow>
   KeyName info' =
     (if keyFields fs = [] then KeyName info else fieldName (last (keyFields fs)))"
proof (induction fs arbitrary: info good)
  case Nil
  then show ?case by (simp add: keyFields_def)
next
  case (Cons f fs)
  from Cons.prems obtain i1 g1 where
    a: "tagField f (info, good) = Inr (i1, g1)" and
    b: "tagFields fs (i1, g1) = Inr (info', good')"
    by (rule tagFields_Cons_Inr)
  have "KeyName i1 =
      (if tagValue f ''sql'' \<noteq> [] \<and> tagValue f ''key'' \<noteq> []
       then fieldName f else KeyName info)"
    by (subst tagField_Inr(1)[OF a]) simp
  with Cons.IH[OF b] show ?case by (simp add: keyFields_def)
qed

lemma tagFields_KeyField:
  "tagFields fs (info, good) = Inr (info', good') \<Longrightarrow>
   KeyField info' =
     (if keyFields fs = [] then KeyField info else tagValue (last (keyFields fs)) ''sql'')"
proof (induction fs arbitrary: info good)
  case Nil
  then show ?case by (simp add: keyFields_def)
next
  case (Cons f fs)
  from Cons.prems obtain i1 g1 where
    a: "tagField f (info, good) = Inr (i1, g1)" and
    b: "tagFields fs (i1, g1) = Inr (info', good')"
    by (rule tagFields_Cons_Inr)
  have "KeyField i1 =
      (if tagValue f ''sql'' \<noteq> [] \<and> tagValue f ''key'' \<noteq> []
       then tagValue f ''sql'' else KeyField info)"
    by (subst tagField_Inr(1)[OF a]) simp
  with Cons.IH[OF b] show ?case by (simp add: keyFields_def)
qed

lemma tagFields_NoUpdate:
  "tagFields fs (info, good) = Inr (info', good') \<Longrightarrow>
   NoUpdate info' =
     NoUpdate info \<union>
     fieldName ` {f \<in> set fs. ParseBool (tagValue f ''update'') = Some False}"
proof (induction fs arbitrary: info good)
  case Nil
  then show ?case by simp
next
  case (Cons f fs)
  from Cons.prems obtain i1 g1 where
    a: "tagField f (info, good) = Inr (i1, g1)" and
    b: "tagFields fs (i1, g1) = Inr (info', good')"
    by (rule tagFields_Cons_Inr)
  have "NoUpdate i1 =
      (if ParseBool (tagValue f ''update'') = Some False
       then insert (fieldName f) (NoUpdate info) else NoUpdate info)"
    by (subst tagField_Inr(1)[OF a]) simp
  with Cons.IH[OF b] show ?case by auto
qed

lemma tagFields_good:
  "tagFields fs (info, good) = Inr (info', good') \<Longrightarrow>
   good' = (good \<or> (\<exists>f \<in> set fs. tagValue f ''sql'' \<noteq> []))"
proof (induction fs arbitrary: info good)
  case Nil
  then show ?case by simp
next
  case (Cons f fs)
  from Cons.prems obtain i1 g1 where
    a: "tagField f (info, good) = Inr (i1, g1)" and
    b: "tagFields fs (i1, g1) = Inr (info', good')"
    by (rule tagFields_Cons_Inr)
  from Cons.IH[OF b] tagField_Inr(2)[OF a] show ?case by auto
qed

lemma tagFields_named:
  "tagFields fs (info, good) = Inr (info', good') \<Longrightarrow>
   f \<in> set fs \<Longrightarrow> tagValue f ''sql'' \<noteq> [] \<Longrightarrow> Names f \<noteq> []"
proof (induction fs arbitrary: info good)
  case Nil
  then show ?case by simp
next
  case (Cons g fs)
  from Cons.prems(1) obtain i1 g1 where
    a: "tagField g (info, good) = Inr (i1, g1)" and
    b: "tagFields fs (i1, g1) = Inr (info', good')"
    by (rule tagFields_Cons_Inr)
  show ?case
  proof (cases "f = g")
    case True
    with tagField_named[OF a] Cons.prems(3) show ?thesis by simp
  next
    case False
    with Cons.prems(2) have "f \<in> set fs" by simp
    from Cons.IH[OF b this Cons.prems(3)] show ?thesis .
  qed
qed

lemma sqlTags_Some:
  "sqlTags typeName fs = Inr (Some s) \<Longrightarrow> tagFields fs (newSQLInfo, False) = Inr (s, True)"
  by (auto simp: sqlTags_def split: sum.splits if_splits)

lemma fieldName_nonempty: "Names f \<noteq> [] \<Longrightarrow> identifiers f \<Longrightarrow> fieldName f \<noteq> []"
  by (cases "Names f") (auto simp: fieldName_def identifiers_def)

lemma tagFields_Fields_other:
  "tagFields fs (info, good) = Inr (info', good') \<Longrightarrow>
   k \<notin> fieldName ` set (columnFields fs) \<Longrightarrow> Fields info' k = Fields info k"
proof (induction fs arbitrary: info good)
  case Nil
  then show ?case by simp
next
  case (Cons f fs)
  from Cons.prems(1) obtain i1 g1 where
    a: "tagField f (info, good) = Inr (i1, g1)" and
    b: "tagFields fs (i1, g1) = Inr (info', good')"
    by (rule tagFields_Cons_Inr)
  have f1: "Fields i1 =
      (if tagValue f ''sql'' \<noteq> [] \<and> tagValue f ''key'' = []
       then (Fields info)(fieldName f \<mapsto> tagValue f ''sql'') else Fields info)"
    by (subst tagField_Inr(1)[OF a]) simp
  from Cons.prems(2) have "k \<notin> fieldName ` set (columnFields fs)"
    by (auto simp: columnFields_def)
  from Cons.IH[OF b this] have "Fields info' k = Fields i1 k" .
  also have "\<dots> = Fields info k"
    using f1 Cons.prems(2) by (auto simp: columnFields_def)
  finally show ?case .
qed

lemma tagFields_Fields_distinct:
  "tagFields fs (info, good) = Inr (info', good') \<Longrightarrow>
   distinct (map fieldName (columnFields fs)) \<Longrightarrow>
   f \<in> set (columnFields fs) \<Longrightarrow> Fields info' (fieldName f) = Some (tagValue f ''sql'')"
proof (induction fs arbitrary: info good)
  case Nil
  then show ?case by (simp add: columnFields_def)
next
  case (Cons g fs)
  from Cons.prems(1) obtain i1 g1 where
    a: "tagField g (info, good) = Inr (i1, g1)" and
    b: "tagFields fs (i1, g1) = Inr (info', good')"
    by (rule tagFields_Cons_Inr)
  have f1: "Fields i1 =
      (if tagValue g ''sql'' \<noteq> [] \<and> tagValue g ''key'' = []
       then (Fields info)(fieldName g \<mapsto> tagValue g ''sql'') else Fields info)"
    by (subst tagField_Inr(1)[OF a]) simp
  have d: "distinct (map fieldName (columnFields fs))"
    using Cons.prems(2) by (simp add: columnFields_def split: if_splits)
  show ?case
  proof (cases "f \<in> set (columnFields fs)")
    case True
    from Cons.IH[OF b d True] show ?thesis .
  next
    case False
    with Cons.prems(3) have fg: "f = g" and col: "tagValue g ''sql'' \<noteq> [] \<and> tagValue g ''key'' = []"
      by (auto simp: columnFields_def split: if_splits)
    from Cons.prems(2) col have "fieldName g \<notin> fieldName ` set (columnFields fs)"
      by (simp add: columnFields_def)
    from tagFields_Fields_other[OF b this] f1 col fg show ?thesis by simp
  qed
qed

subsection \<open>The loop of buildWrappers and the method texts\<close>

lemma wrapLoop_sql:
  "sql (wrapLoop s ks w) = sql w @ map (FieldsAt s) (filter (\<lambda>k. k \<noteq> []) ks)"
  by (induction ks arbitrary: w) (simp_all add: Let_def)

lemma wrapLoop_ptr:
  "ptr (wrapLoop s ks w) = ptr w @ map (\<lambda>k. ''&o.'' @ k) (filter (\<lambda>k. k \<noteq> []) ks)"
  by (induction ks arbitrary: w) (simp_all add: Let_def)

lemma wrapLoop_elem:
  "elem (wrapLoop s ks w) = elem w @ map (\<lambda>k. ''o.'' @ k) (filter (\<lambda>k. k \<noteq> []) ks)"
  by (induction ks arbitrary: w) (simp_all add: Let_def)

lemma wrapLoop_names:
  "names (wrapLoop s ks w) = names w @ map (\<lambda>k. dq @ k @ dq) (filter (\<lambda>k. k \<noteq> []) ks)"
  by (induction ks arbitrary: w) (simp_all add: Let_def)

lemma wrapVars_Name: "wrapVars (s\<lparr>Name := n\<rparr>) = wrapVars s"
proof -
  have "wrapLoop (s\<lparr>Name := n\<rparr>) ks w = wrapLoop s ks w" for ks w
    by (induction ks arbitrary: w) (simp_all add: FieldsAt_def)
  then show ?thesis by (simp add: wrapVars_def wrapInit_def)
qed

lemma wrapLoop_NoUpdate_sql: "sql (wrapLoop (s\<lparr>NoUpdate := X\<rparr>) ks w) = sql (wrapLoop s ks w)"
  by (simp add: wrapLoop_sql FieldsAt_def)

lemma wrapVars_sql:
  "sql (wrapVars s) =
     (if KeyField s = [] then [] else [KeyField s]) @
     map (FieldsAt s) (filter (\<lambda>k. k \<noteq> []) (Order s))"
  by (simp add: wrapVars_def wrapLoop_sql wrapInit_def)

lemma wrapVars_ptr:
  "ptr (wrapVars s) =
     (if KeyName s = [] then [] else [''&o.'' @ KeyName s]) @
     map (\<lambda>k. ''&o.'' @ k) (filter (\<lambda>k. k \<noteq> []) (Order s))"
  by (simp add: wrapVars_def wrapLoop_ptr wrapInit_def)

lemma wrapVars_elem:
  "elem (wrapVars s) = map (\<lambda>k. ''o.'' @ k) (filter (\<lambda>k. k \<noteq> []) (Order s))"
  by (simp add: wrapVars_def wrapLoop_elem wrapInit_def)

lemma wrapVars_names:
  "names (wrapVars s) = map (\<lambda>k. dq @ k @ dq) (filter (\<lambda>k. k \<noteq> []) (Order s))"
  by (simp add: wrapVars_def wrapLoop_names wrapInit_def)

lemma wrapVars_NoUpdate:
  "sql (wrapVars (s\<lparr>NoUpdate := X\<rparr>)) = sql (wrapVars s)"
  "ptr (wrapVars (s\<lparr>NoUpdate := X\<rparr>)) = ptr (wrapVars s)"
  "elem (wrapVars (s\<lparr>NoUpdate := X\<rparr>)) = elem (wrapVars s)"
  "names (wrapVars (s\<lparr>NoUpdate := X\<rparr>)) = names (wrapVars s)"
  by (simp_all add: wrapVars_sql wrapVars_ptr wrapVars_elem wrapVars_names FieldsAt_def)

text \<open>
  The method texts other than \<^verbatim>\<open>ModifiedBy\<close> read the name, the table, the key and
  the columns of the descriptor, and nothing else.
\<close>

lemma wrapVars_cong:
  assumes "KeyName s = KeyName s'" "KeyField s = KeyField s'" "Order s = Order s'"
    "Fields s = Fields s'"
  shows "sql (wrapVars s) = sql (wrapVars s')" "ptr (wrapVars s) = ptr (wrapVars s')"
    "elem (wrapVars s) = elem (wrapVars s')" "names (wrapVars s) = names (wrapVars s')"
  using assms
  by (simp_all add: wrapVars_sql wrapVars_ptr wrapVars_elem wrapVars_names FieldsAt_def)

lemma prints_cong:
  assumes "Name s = Name s'" "Table s = Table s'" "KeyName s = KeyName s'"
    "KeyField s = KeyField s'" "Order s = Order s'" "Fields s = Fields s'"
  shows "printGeneratorComment s = printGeneratorComment s'"
    and "printNewObj s = printNewObj s'"
    and "printInterfaceComment s = printInterfaceComment s'"
    and "printInsertValues s = printInsertValues s'"
    and "printUpdateValues s = printUpdateValues s'"
    and "printMemberPointers s = printMemberPointers s'"
    and "printKeySetID s = printKeySetID s'"
    and "printSQLGet s = printSQLGet s'"
    and "printTableName s = printTableName s'"
    and "printSelectFields s = printSelectFields s'"
    and "printInsertFields s = printInsertFields s'"
    and "printKeyField s = printKeyField s'"
    and "printKeyName s = printKeyName s'"
    and "printNames s = printNames s'"
  using assms wrapVars_cong[OF assms(3-6)]
  by (simp_all add: printGeneratorComment_def printNewObj_def printInterfaceComment_def
      printInsertValues_def printUpdateValues_def elemWithKey_def printMemberPointers_def
      printKeySetID_def printSQLGet_def printTableName_def printSelectFields_def
      printInsertFields_def printKeyField_def printKeyName_def printNames_def)

subsection \<open>The descriptor of a struct, in terms of its fields\<close>

text \<open>What a descriptor returned by sqlTags holds, in terms of the fields.\<close>

lemma sqlTags_descriptor:
  assumes ok: "sqlTags typeName fs = Inr (Some s)"
  shows "Order s = map fieldName (columnFields fs)"
    and "KeyName s = (if keyFields fs = [] then [] else fieldName (last (keyFields fs)))"
    and "KeyField s = (if keyFields fs = [] then [] else tagValue (last (keyFields fs)) ''sql'')"
    and "Table s = (if tableFields fs = [] then [] else tagValue (last (tableFields fs)) ''table'')"
    and "NoUpdate s = fieldName ` {f \<in> set fs. ParseBool (tagValue f ''update'') = Some False}"
    and "Name s = []"
  using tagFields_Order[OF sqlTags_Some[OF ok]] tagFields_KeyName[OF sqlTags_Some[OF ok]]
    tagFields_KeyField[OF sqlTags_Some[OF ok]] tagFields_Table[OF sqlTags_Some[OF ok]]
    tagFields_NoUpdate[OF sqlTags_Some[OF ok]] tagFields_Name[OF sqlTags_Some[OF ok]]
  by (simp_all add: newSQLInfo_def)

lemma sqlTags_names_nonempty:
  assumes ok: "sqlTags typeName fs = Inr (Some s)"
    and ids: "\<forall>f \<in> set fs. identifiers f"
    and f: "f \<in> set fs" "tagValue f ''sql'' \<noteq> []"
  shows "fieldName f \<noteq> []"
  using tagFields_named[OF sqlTags_Some[OF ok] f] ids f(1) fieldName_nonempty by blast

lemma sqlTags_Order_nonempty:
  assumes ok: "sqlTags typeName fs = Inr (Some s)"
    and ids: "\<forall>f \<in> set fs. identifiers f"
  shows "filter (\<lambda>k. k \<noteq> []) (Order s) = Order s"
proof -
  have "\<forall>f \<in> set (columnFields fs). fieldName f \<noteq> []"
    using sqlTags_names_nonempty[OF ok ids] by (auto simp: columnFields_def)
  then show ?thesis
    by (simp add: sqlTags_descriptor(1)[OF ok] filter_id_conv)
qed

lemma keyFields_last:
  "keyFields fs \<noteq> [] \<Longrightarrow>
   last (keyFields fs) \<in> set fs \<and> tagValue (last (keyFields fs)) ''sql'' \<noteq> [] \<and>
   tagValue (last (keyFields fs)) ''key'' \<noteq> []"
proof -
  assume "keyFields fs \<noteq> []"
  then have "last (keyFields fs) \<in> set (keyFields fs)" by simp
  then show ?thesis by (simp add: keyFields_def)
qed

lemma sqlTags_key_nonempty:
  assumes ok: "sqlTags typeName fs = Inr (Some s)"
    and ids: "\<forall>f \<in> set fs. identifiers f"
  shows "(KeyName s = []) = (keyFields fs = [])" and "(KeyField s = []) = (keyFields fs = [])"
proof -
  show "(KeyName s = []) = (keyFields fs = [])"
    using sqlTags_names_nonempty[OF ok ids] keyFields_last[of fs]
    by (auto simp: sqlTags_descriptor(2)[OF ok])
  show "(KeyField s = []) = (keyFields fs = [])"
    using keyFields_last[of fs]
    by (auto simp: sqlTags_descriptor(3)[OF ok])
qed

lemma sqlTags_sql_list:
  assumes ok: "sqlTags typeName fs = Inr (Some s)"
    and ids: "\<forall>f \<in> set fs. identifiers f"
  shows "sql (wrapVars s) = map (columnOf s) (persistedOrder fs)"
proof -
  have k: "(KeyField s = []) = (keyFields fs = [])"
    by (rule sqlTags_key_nonempty(2)[OF ok ids])
  have c: "map (columnOf s) (columnFields fs) = map (FieldsAt s) (map fieldName (columnFields fs))"
    by (simp add: columnFields_def columnOf_def)
  have l: "keyFields fs \<noteq> [] \<Longrightarrow> columnOf s (last (keyFields fs)) = KeyField s"
    using keyFields_last[of fs] by (simp add: columnOf_def)
  show ?thesis
    unfolding wrapVars_sql sqlTags_Order_nonempty[OF ok ids] persistedOrder_def
    using k c l by (simp add: sqlTags_descriptor(1)[OF ok])
qed

lemma sqlTags_ptr_list:
  assumes ok: "sqlTags typeName fs = Inr (Some s)"
    and ids: "\<forall>f \<in> set fs. identifiers f"
  shows "ptr (wrapVars s) = map (\<lambda>f. ''&o.'' @ fieldName f) (persistedOrder fs)"
proof -
  have k: "(KeyName s = []) = (keyFields fs = [])"
    by (rule sqlTags_key_nonempty(1)[OF ok ids])
  have l: "keyFields fs \<noteq> [] \<Longrightarrow> fieldName (last (keyFields fs)) = KeyName s"
    by (simp add: sqlTags_descriptor(2)[OF ok])
  show ?thesis
    unfolding wrapVars_ptr sqlTags_Order_nonempty[OF ok ids] persistedOrder_def
    using k l by (simp add: sqlTags_descriptor(1)[OF ok] comp_def)
qed

lemma sqlTags_elem_list:
  assumes ok: "sqlTags typeName fs = Inr (Some s)"
    and ids: "\<forall>f \<in> set fs. identifiers f"
  shows "elem (wrapVars s) = map (\<lambda>f. ''o.'' @ fieldName f) (columnFields fs)"
  unfolding wrapVars_elem sqlTags_Order_nonempty[OF ok ids]
  by (simp add: sqlTags_descriptor(1)[OF ok] comp_def)

subsection \<open>On fields that all have a name the tag parser does not panic\<close>

lemma tagField_named_returns:
  assumes "Names f \<noteq> []"
  shows "\<exists>r. tagField f st = Inr r"
proof (cases "Tag f")
  case None
  then show ?thesis by (simp add: tagField_untagged)
next
  case (Some tag)
  obtain info good where st: "st = (info, good)" by (cases st)
  have 1: "\<exists>r. sqlPart tag f (i, g) = Inr r" for i g
    by (auto simp: sqlPart_def Let_def Name0_named[OF assms])
  have 2: "\<exists>r. auditPart tag f (i, g) = Inr r" for i g
    by (auto simp: auditPart_def Let_def Name0_named[OF assms])
  have 3: "\<exists>r. updatePart tag f (i, g) = Inr r" for i g
    by (cases "ParseBool (Get tag ''update'')")
       (auto simp: updatePart_def Let_def Name0_named[OF assms])
  from 1 obtain i1 g1 where a: "sqlPart tag f (info, good) = Inr (i1, g1)" by fastforce
  from 2 obtain i2 g2 where b: "auditPart tag f (i1, g1) = Inr (i2, g2)" by fastforce
  from 3 obtain r where c: "updatePart tag f (i2, g2) = Inr r" by fastforce
  from Some st a b c show ?thesis by (simp add: tagField_def)
qed

lemma tagFields_named_returns:
  "list_all (\<lambda>f. Names f \<noteq> []) fs \<Longrightarrow> \<exists>r. tagFields fs st = Inr r"
proof (induction fs arbitrary: st)
  case Nil
  then show ?case by simp
next
  case (Cons f fs)
  then obtain r where "tagField f st = Inr r"
    using tagField_named_returns[of f st] by auto
  moreover from Cons obtain r' where "tagFields fs r = Inr r'"
    by fastforce
  ultimately show ?case by simp
qed

lemma sqlTags_named_returns:
  assumes "list_all (\<lambda>f. Names f \<noteq> []) fs"
  shows "\<exists>r. sqlTags typeName fs = Inr r"
proof -
  from tagFields_named_returns[OF assms] obtain info good where
    "tagFields fs (newSQLInfo, False) = Inr (info, good)" by fastforce
  then show ?thesis by (simp add: sqlTags_def)
qed

subsection \<open>Structs without a sql value\<close>

text \<open>When every field has a name, a struct without a \<^verbatim>\<open>sql\<close> value gives no descriptor.\<close>

lemma tagField_no_sql_named:
  assumes "Names f \<noteq> []" "tagValue f ''sql'' = []"
  shows "\<exists>info'. tagField f (info, good) = Inr (info', good)"
proof (cases "Tag f")
  case None
  then show ?thesis by (simp add: tagField_untagged)
next
  case (Some tag)
  with assms(2) have "Get tag ''sql'' = []" by (simp add: tagValue_def)
  with Some assms(1) show ?thesis
    by (cases "ParseBool (Get tag ''update'')")
       (auto simp: tagField_def sqlPart_def auditPart_def updatePart_def Name0_named Let_def)
qed

lemma tagFields_no_sql_named:
  "list_all (\<lambda>f. Names f \<noteq> [] \<and> tagValue f ''sql'' = []) fs \<Longrightarrow>
   \<exists>info'. tagFields fs (info, good) = Inr (info', good)"
proof (induction fs arbitrary: info)
  case Nil
  then show ?case by simp
next
  case (Cons f fs)
  then obtain i1 where "tagField f (info, good) = Inr (i1, good)"
    using tagField_no_sql_named[of f info good] by auto
  moreover from Cons obtain i2 where "tagFields fs (i1, good) = Inr (i2, good)"
    by fastforce
  ultimately show ?case by simp
qed

lemma sqlTags_no_sql_named:
  assumes "list_all (\<lambda>f. Names f \<noteq> [] \<and> tagValue f ''sql'' = []) fs"
  shows "sqlTags typeName fs = Inr None"
  using tagFields_no_sql_named[OF assms, of newSQLInfo False]
  by (auto simp: sqlTags_def)

lemma genDecl_no_sql_named:
  assumes "list_all (\<lambda>f. Names f \<noteq> [] \<and> tagValue f ''sql'' = []) fs"
  shows "genDecl (StructType fs below) f =
           Inr (\<not> (length (findName f) = 0 \<or> findName f = TypeName f), f)"
  by (simp add: sqlTags_no_sql_named[OF assms])

subsection \<open>Runs on inputs that differ in the update values only\<close>

lemma sameButUpdateTag_Get:
  "sameButUpdateTag t t' \<Longrightarrow> k \<noteq> ''update'' \<Longrightarrow> Get t k = Get t' k"
  unfolding sameButUpdateTag_def
  by (induction t t' rule: list_all2_induct) auto

lemma sameButUpdateField_tagValue:
  assumes "sameButUpdateField f f'" and "k \<noteq> ''update''"
  shows "tagValue f k = tagValue f' k"
proof (cases "Tag f")
  case None
  with assms(1) have "Tag f' = None"
    by (simp add: sameButUpdateField_def)
  with None show ?thesis by (simp add: tagValue_def)
next
  case (Some t)
  with assms(1) obtain t' where "Tag f' = Some t'" "sameButUpdateTag t t'"
    by (auto simp: sameButUpdateField_def option_rel_Some1)
  with Some sameButUpdateTag_Get[OF this(2) assms(2)] show ?thesis
    by (simp add: tagValue_def)
qed

lemma sameButUpdateField_fieldName:
  "sameButUpdateField f f' \<Longrightarrow> fieldName f = fieldName f'"
  by (simp add: sameButUpdateField_def fieldName_def)

lemma tagField_sameButUpdate:
  assumes f: "sameButUpdateField f f'" and s: "sameButNoUpdate i j"
    and r: "tagField f (i, g) = Inr (i', g')" and r': "tagField f' (j, g) = Inr (j', h')"
  shows "sameButNoUpdate i' j'" and "g' = h'"
proof -
  have v: "tagValue f ''sql'' = tagValue f' ''sql''" "tagValue f ''key'' = tagValue f' ''key''"
    "tagValue f ''table'' = tagValue f' ''table''" "tagValue f ''audit'' = tagValue f' ''audit''"
    using sameButUpdateField_tagValue[OF f] by simp_all
  note n = sameButUpdateField_fieldName[OF f]
  show "g' = h'"
    using tagField_Inr(2)[OF r] tagField_Inr(2)[OF r'] v by simp
  show "sameButNoUpdate i' j'"
    unfolding tagField_Inr(1)[OF r] tagField_Inr(1)[OF r']
    using s v n by (simp add: sameButNoUpdate_def)
qed

lemma tagFields_sameButUpdate:
  "list_all2 sameButUpdateField fs fs' \<Longrightarrow> sameButNoUpdate i j \<Longrightarrow>
   tagFields fs (i, g) = Inr (i', g') \<Longrightarrow> tagFields fs' (j, g) = Inr (j', h') \<Longrightarrow>
   sameButNoUpdate i' j' \<and> g' = h'"
proof (induction fs fs' arbitrary: i j g rule: list_all2_induct)
  case Nil
  then show ?case by simp
next
  case (Cons f fs f' fs')
  from Cons.prems(2) obtain i1 g1 where
    a: "tagField f (i, g) = Inr (i1, g1)" and
    b: "tagFields fs (i1, g1) = Inr (i', g')"
    by (rule tagFields_Cons_Inr)
  from Cons.prems(3) obtain j1 h1 where
    a': "tagField f' (j, g) = Inr (j1, h1)" and
    b': "tagFields fs' (j1, h1) = Inr (j', h')"
    by (rule tagFields_Cons_Inr)
  note st = tagField_sameButUpdate[OF Cons.hyps(1) Cons.prems(1) a a']
  from Cons.IH[OF st(1) b] b' st(2) show ?case by simp
qed

lemma sqlTags_sameButUpdate:
  assumes "list_all2 sameButUpdateField fs fs'"
    and "sqlTags typeName fs = Inr r" and "sqlTags typeName' fs' = Inr r'"
  shows "rel_option sameButNoUpdate r r'"
proof -
  from assms(2) obtain i g where
    a: "tagFields fs (newSQLInfo, False) = Inr (i, g)" and r: "r = (if g then Some i else None)"
    by (auto simp: sqlTags_def split: sum.splits)
  from assms(3) obtain j h where
    a': "tagFields fs' (newSQLInfo, False) = Inr (j, h)" and r': "r' = (if h then Some j else None)"
    by (auto simp: sqlTags_def split: sum.splits)
  have "sameButNoUpdate newSQLInfo newSQLInfo"
    by (simp add: sameButNoUpdate_def)
  from tagFields_sameButUpdate[OF assms(1) this a a'] r r' show ?thesis
    by simp
qed

lemma buildWrappers_sameButNoUpdate:
  assumes "sameButNoUpdate s s'"
  shows "buildWrappers s b = buildWrappers s' b"
proof -
  from assms have e: "Name s = Name s'" "Table s = Table s'" "KeyName s = KeyName s'"
    "KeyField s = KeyField s'" "Order s = Order s'" "Fields s = Fields s'"
    and a: "UserField s = UserField s'" "TimeField s = TimeField s'"
    by (simp_all add: sameButNoUpdate_def)
  have "printAudit s = printAudit s'"
    using e(1) a by (simp add: printAudit_def)
  with prints_cong[OF e] show ?thesis
    by (simp add: buildWrappers_def)
qed

lemma fold_buildWrappers_sameButNoUpdate:
  "list_all2 sameButNoUpdate vs vs' \<Longrightarrow> fold buildWrappers vs b = fold buildWrappers vs' b"
  by (induction vs vs' arbitrary: b rule: list_all2_induct)
     (simp_all add: buildWrappers_sameButNoUpdate)

lemma genDecl_sameButUpdate:
  assumes n: "sameButUpdate node node'" and f: "sameFile f f'"
    and r: "genDecl node f = Inr (d, f1)" and r': "genDecl node' f' = Inr (d', f1')"
  shows "d = d'" and "sameFile f1 f1'"
proof -
  have "d = d' \<and> sameFile f1 f1'"
  proof (cases node)
    case (TypeSpec x below)
    with n obtain below' where "node' = TypeSpec x below'"
      by (cases node') simp_all
    with TypeSpec r r' f show ?thesis
      by (auto simp: sameFile_def)
  next
    case (OtherNode below)
    with n obtain below' where "node' = OtherNode below'"
      by (cases node') simp_all
    with OtherNode r r' f show ?thesis
      by auto
  next
    case (StructType fl below)
    with n obtain fl' below' where n': "node' = StructType fl' below'"
      and fl: "list_all2 sameButUpdateField fl fl'"
      by (cases node') simp_all
    from f have e: "TypeName f = TypeName f'" "findName f = findName f'"
      by (simp_all add: sameFile_def)
    show ?thesis
    proof (cases "length (findName f) = 0 \<or> findName f = TypeName f")
      case False
      with StructType n' r r' f e show ?thesis by auto
    next
      case True
      with r StructType obtain t where t: "sqlTags (TypeName f) fl = Inr t"
        by (auto split: sum.splits)
      from True e r' n' obtain t' where t': "sqlTags (TypeName f') fl' = Inr t'"
        by (auto split: sum.splits)
      note rel = sqlTags_sameButUpdate[OF fl t t']
      show ?thesis
      proof (cases t)
        case None
        with rel have "t' = None" by simp
        with None True StructType n' r r' t t' e f show ?thesis by auto
      next
        case (Some v)
        with rel obtain v' where v': "t' = Some v'" "sameButNoUpdate v v'"
          by (auto simp: option_rel_Some1)
        from v'(2) e have "sameButNoUpdate (v\<lparr>Name := TypeName f\<rparr>) (v'\<lparr>Name := TypeName f'\<rparr>)"
          by (simp add: sameButNoUpdate_def)
        with Some v' True StructType n' r r' t t' e f show ?thesis
          by (auto simp: sameFile_def list_all2_appendI)
      qed
    qed
  qed
  then show "d = d'" and "sameFile f1 f1'" by simp_all
qed

lemma Inspect_unfold:
  "Inspect node f =
     (case genDecl node f of
        Inl e \<Rightarrow> Inl e
      | Inr (d, g1) \<Rightarrow> if d then InspectList (belowOf node) g1 else Inr g1)"
  by (cases node) (simp_all del: genDecl.simps split: sum.splits prod.splits)

lemma Inspect_Inr:
  assumes "Inspect node f = Inr f1"
  obtains d g1 where "genDecl node f = Inr (d, g1)"
    and "(if d then InspectList (belowOf node) g1 else Inr g1) = Inr f1"
proof (cases "genDecl node f")
  case (Inl e)
  with assms show ?thesis by (simp add: Inspect_unfold)
next
  case (Inr p)
  obtain d g1 where p: "p = (d, g1)" by (cases p)
  from assms Inr p have "(if d then InspectList (belowOf node) g1 else Inr g1) = Inr f1"
    by (simp add: Inspect_unfold)
  with Inr p that show ?thesis by blast
qed

lemma sameButUpdate_belowOf:
  "sameButUpdate node node' \<Longrightarrow> list_all2 sameButUpdate (belowOf node) (belowOf node')"
  by (cases node; cases node') simp_all

lemma Inspect_sameButUpdate_step:
  assumes n: "sameButUpdate node node'" and f: "sameFile f f'"
    and r: "Inspect node f = Inr f1" and r': "Inspect node' f' = Inr f1'"
    and IH: "\<And>d g1 g1'. genDecl node f = Inr (d, g1) \<Longrightarrow> d \<Longrightarrow> sameFile g1 g1' \<Longrightarrow>
       InspectList (belowOf node) g1 = Inr f1 \<Longrightarrow>
       InspectList (belowOf node') g1' = Inr f1' \<Longrightarrow> sameFile f1 f1'"
  shows "sameFile f1 f1'"
proof -
  from r obtain d g1 where a: "genDecl node f = Inr (d, g1)"
    and b: "(if d then InspectList (belowOf node) g1 else Inr g1) = Inr f1"
    by (rule Inspect_Inr)
  from r' obtain d' g1' where a': "genDecl node' f' = Inr (d', g1')"
    and b': "(if d' then InspectList (belowOf node') g1' else Inr g1') = Inr f1'"
    by (rule Inspect_Inr)
  note g = genDecl_sameButUpdate[OF n f a a']
  show ?thesis
  proof (cases d)
    case True
    with g(1) b b' have "InspectList (belowOf node) g1 = Inr f1"
      "InspectList (belowOf node') g1' = Inr f1'" by simp_all
    from IH[OF a True g(2) this] show ?thesis .
  next
    case False
    with g b b' show ?thesis by simp
  qed
qed

lemma Inspect_sameButUpdate:
  "sameButUpdate node node' \<Longrightarrow> sameFile f f' \<Longrightarrow>
   Inspect node f = Inr f1 \<Longrightarrow> Inspect node' f' = Inr f1' \<Longrightarrow> sameFile f1 f1'"
  and InspectList_sameButUpdate:
  "list_all2 sameButUpdate nodes nodes' \<Longrightarrow> sameFile f f' \<Longrightarrow>
   InspectList nodes f = Inr f1 \<Longrightarrow> InspectList nodes' f' = Inr f1' \<Longrightarrow> sameFile f1 f1'"
proof (induction node f and nodes f arbitrary: node' f' f1 f1' and nodes' f' f1 f1'
    rule: Inspect_InspectList.induct)
  case (1 x_Name below f)
  show ?case
  proof (rule Inspect_sameButUpdate_step[OF "1.prems"])
    fix d g1 g1'
    assume "genDecl (TypeSpec x_Name below) f = Inr (d, g1)" d "sameFile g1 g1'"
      "InspectList (belowOf (TypeSpec x_Name below)) g1 = Inr f1"
      "InspectList (belowOf node') g1' = Inr f1'"
    with "1.IH"[of "(d, g1)" d g1 "belowOf node'" g1' f1 f1']
      sameButUpdate_belowOf[OF "1.prems"(1)]
    show "sameFile f1 f1'" by simp
  qed
next
  case (2 x_Fields below f)
  show ?case
  proof (rule Inspect_sameButUpdate_step[OF "2.prems"])
    fix d g1 g1'
    assume "genDecl (StructType x_Fields below) f = Inr (d, g1)" d "sameFile g1 g1'"
      "InspectList (belowOf (StructType x_Fields below)) g1 = Inr f1"
      "InspectList (belowOf node') g1' = Inr f1'"
    with "2.IH"[of "(d, g1)" d g1 "belowOf node'" g1' f1 f1']
      sameButUpdate_belowOf[OF "2.prems"(1)]
    show "sameFile f1 f1'" by simp
  qed
next
  case (3 below f)
  show ?case
  proof (rule Inspect_sameButUpdate_step[OF "3.prems"])
    fix d g1 g1'
    assume "genDecl (OtherNode below) f = Inr (d, g1)" d "sameFile g1 g1'"
      "InspectList (belowOf (OtherNode below)) g1 = Inr f1"
      "InspectList (belowOf node') g1' = Inr f1'"
    with "3.IH"[of "(d, g1)" d g1 "belowOf node'" g1' f1 f1']
      sameButUpdate_belowOf[OF "3.prems"(1)]
    show "sameFile f1 f1'" by simp
  qed
next
  case (4 f)
  then show ?case by simp
next
  case (5 node nodes f)
  from "5.prems"(1) obtain n' ns' where c: "nodes' = n' # ns'" "sameButUpdate node n'"
    "list_all2 sameButUpdate nodes ns'"
    by (auto simp: list_all2_Cons1)
  from "5.prems"(3) obtain g1 where a: "Inspect node f = Inr g1" "InspectList nodes g1 = Inr f1"
    by (auto split: sum.splits)
  from "5.prems"(4) c(1) obtain g1' where a': "Inspect n' f' = Inr g1'"
    "InspectList ns' g1' = Inr f1'"
    by (auto split: sum.splits)
  from "5.IH"(1)[OF c(2) "5.prems"(2) a(1) a'(1)] have "sameFile g1 g1'" .
  from "5.IH"(2)[OF a(1) c(3) this a(2) a'(2)] show ?case .
qed

lemma generateFile_sameButUpdate:
  assumes f: "sameFile f f'"
    and r: "generateFile typeName f b = Inr (f1, b1)"
    and r': "generateFile typeName f' b = Inr (f1', b1')"
  shows "sameFile f1 f1'" and "b1 = b1'"
proof -
  let ?g = "f\<lparr>findName := typeName\<rparr>" and ?g' = "f'\<lparr>findName := typeName\<rparr>"
  from f have g: "sameFile ?g ?g'" and o: "rel_option sameButUpdate (file_f f) (file_f f')"
    by (simp_all add: sameFile_def)
  have "sameFile f1 f1' \<and> b1 = b1'"
  proof (cases "file_f f")
    case None
    with o have "file_f f' = None" by simp
    with None r r' g show ?thesis
      by (simp add: generateFile_def)
  next
    case (Some root)
    with o obtain root' where s': "file_f f' = Some root'" and n: "sameButUpdate root root'"
      by (auto simp: option_rel_Some1)
    from r Some have a: "Inspect root ?g = Inr f1" "b1 = fold buildWrappers (values_f f1) b"
      by (auto simp: generateFile_def split: sum.splits)
    from r' s' have a': "Inspect root' ?g' = Inr f1'" "b1' = fold buildWrappers (values_f f1') b"
      by (auto simp: generateFile_def split: sum.splits)
    from Inspect_sameButUpdate[OF n g a(1) a'(1)] have s: "sameFile f1 f1'" .
    then have "list_all2 sameButNoUpdate (values_f f1) (values_f f1')"
      by (simp add: sameFile_def)
    from fold_buildWrappers_sameButNoUpdate[OF this] a(2) a'(2) s show ?thesis
      by simp
  qed
  then show "sameFile f1 f1'" and "b1 = b1'" by simp_all
qed

lemma generateFiles_sameButUpdate:
  "list_all2 sameFile fs fs' \<Longrightarrow>
   generateFiles typeName fs b = Inr (fs1, b1) \<Longrightarrow>
   generateFiles typeName fs' b = Inr (fs1', b1') \<Longrightarrow>
   list_all2 sameFile fs1 fs1' \<and> b1 = b1'"
proof (induction fs fs' arbitrary: b fs1 fs1' rule: list_all2_induct)
  case Nil
  then show ?case by simp
next
  case (Cons f fs f' fs')
  from Cons.prems(1) obtain g1 c1 gs where
    a: "generateFile typeName f b = Inr (g1, c1)"
    "generateFiles typeName fs c1 = Inr (gs, b1)" "fs1 = g1 # gs"
    by (auto split: sum.splits)
  from Cons.prems(2) obtain g1' c1' gs' where
    a': "generateFile typeName f' b = Inr (g1', c1')"
    "generateFiles typeName fs' c1' = Inr (gs', b1')" "fs1' = g1' # gs'"
    by (auto split: sum.splits)
  note s = generateFile_sameButUpdate[OF Cons.hyps(1) a(1) a'(1)]
  from Cons.IH[OF a(2)] a'(2) s(2) have "list_all2 sameFile gs gs' \<and> b1 = b1'"
    by simp
  with s(1) a(3) a'(3) show ?case by simp
qed

lemma generate_sameButUpdate:
  assumes "sameGenerator g g'"
    and "generate typeName g = Inr g1" and "generate typeName g' = Inr g1'"
  shows "sameGenerator g1 g1'"
proof -
  from assms(1) have e: "buf g = buf g'" "name (pkg g) = name (pkg g')"
    "list_all2 sameFile (files (pkg g)) (files (pkg g'))"
    by (simp_all add: sameGenerator_def)
  from assms(2) obtain fs b where
    a: "generateFiles typeName (files (pkg g)) (buf g) = Inr (fs, b)"
    "g1 = g\<lparr>buf := b, pkg := (pkg g)\<lparr>files := fs\<rparr>\<rparr>"
    by (auto simp: generate_def split: sum.splits)
  from assms(3) e(1) obtain fs' b' where
    a': "generateFiles typeName (files (pkg g')) (buf g) = Inr (fs', b')"
    "g1' = g'\<lparr>buf := b', pkg := (pkg g')\<lparr>files := fs'\<rparr>\<rparr>"
    by (auto simp: generate_def split: sum.splits)
  from generateFiles_sameButUpdate[OF e(3) a(1) a'(1)] a(2) a'(2) e(2) show ?thesis
    by (simp add: sameGenerator_def)
qed

lemma generateNames_sameButUpdate:
  "sameGenerator g g' \<Longrightarrow>
   generateNames typeNames g = Inr g1 \<Longrightarrow> generateNames typeNames g' = Inr g1' \<Longrightarrow>
   sameGenerator g1 g1'"
proof (induction typeNames arbitrary: g g')
  case Nil
  then show ?case by simp
next
  case (Cons typeName later)
  from Cons.prems(2) obtain h where a: "generate typeName g = Inr h"
    "generateNames later h = Inr g1"
    by (auto split: sum.splits)
  from Cons.prems(3) obtain h' where a': "generate typeName g' = Inr h'"
    "generateNames later h' = Inr g1'"
    by (auto split: sum.splits)
  from Cons.IH[OF generate_sameButUpdate[OF Cons.prems(1) a(1) a'(1)] a(2) a'(2)]
  show ?case .
qed

lemma parsedFile_sameButUpdate:
  "list_all2 (rel_option sameButUpdate) parsed parsed' \<Longrightarrow>
   list_all2 sameFile (map parsedFile parsed) (map parsedFile parsed')"
  by (induction parsed parsed' rule: list_all2_induct)
     (simp_all add: sameFile_def parsedFile_def)

lemma buildWrappers_NoUpdate: "buildWrappers (s\<lparr>NoUpdate := X\<rparr>) b = buildWrappers s b"
  by (rule buildWrappers_sameButNoUpdate) (simp add: sameButNoUpdate_def)

subsection \<open>A run on a file that declares one struct\<close>

lemma Inspect_structFile:
  assumes "sqlTags T fl = Inr r"
  shows "Inspect (structFile T fl) \<lparr>file_f = a, TypeName = [], findName = T, values_f = []\<rparr> =
     Inr \<lparr>file_f = a, TypeName = T, findName = T,
          values_f = (case r of None \<Rightarrow> [] | Some s \<Rightarrow> [s\<lparr>Name := T\<rparr>])\<rparr>"
  using assms by (cases r) (simp_all add: structFile_def)

lemma Inspect_structFile_panic:
  assumes "sqlTags T fl = Inl e"
  shows "Inspect (structFile T fl) \<lparr>file_f = a, TypeName = [], findName = T, values_f = []\<rparr> =
     Inl e"
  using assms by (simp add: structFile_def)

lemma main_buf_structFile:
  assumes "sqlTags T fl = Inr (Some s)" and "Split T (CHR '','') = [T]"
  shows "main_buf os_Args T pkg_name [Some (structFile T fl)] =
     Inr (buildWrappers (s\<lparr>Name := T\<rparr>)
           (''// generated by '' @ [CHR 0x27] @ ''dbgen '' @ Join os_Args '' '' @
            [CHR 0x27] @ ''; DO NOT EDIT'' @ nl @ nl @ ''package '' @ pkg_name @ nl @
            nl @ nl @ ''import ('' @ nl @ tab @ dq @ ''time'' @ dq @ nl @ '')'' @ nl @ nl))"
  by (simp add: main_buf_def assms(2) generate_def generateFile_def parsedFile_def
      Inspect_structFile[OF assms(1)] Printf_def Let_def del: Split.simps)

lemma main_buf_structFile_none:
  assumes "sqlTags T fl = Inr None" and "Split T (CHR '','') = [T]"
  shows "main_buf os_Args T pkg_name [Some (structFile T fl)] =
     Inr (''// generated by '' @ [CHR 0x27] @ ''dbgen '' @ Join os_Args '' '' @
          [CHR 0x27] @ ''; DO NOT EDIT'' @ nl @ nl @ ''package '' @ pkg_name @ nl @
          nl @ nl @ ''import ('' @ nl @ tab @ dq @ ''time'' @ dq @ nl @ '')'' @ nl @ nl)"
  by (simp add: main_buf_def assms(2) generate_def generateFile_def parsedFile_def
      Inspect_structFile[OF assms(1)] Printf_def Let_def del: Split.simps)

lemma main_buf_structFile_panic:
  assumes "sqlTags T fl = Inl e" and "Split T (CHR '','') = [T]"
  shows "main_buf os_Args T pkg_name [Some (structFile T fl)] = Inl e"
  by (simp add: main_buf_def assms(2) generate_def generateFile_def parsedFile_def
      Inspect_structFile_panic[OF assms(1)] Let_def del: Split.simps)

subsection \<open>Evaluation of the examples\<close>

lemmas sqlTags_eval =
  sqlTags_def tagField_def sqlPart_def auditPart_def updatePart_def Name0_def
  newSQLInfo_def ParseBool_def Let_def

lemmas fields_eval =
  tagValue_def fieldName_def columnFields_def keyFields_def tableFields_def
  identifiers_def persistedOrder_def columnOf_def FieldsAt_def

lemma sqlTags_exampleStruct: "sqlTags typeName exampleStruct = Inr (Some exampleInfo)"
  by (simp add: exampleStruct_def exampleInfo_def sqlTags_eval)

lemma sqlTags_testStruct: "sqlTags typeName testStruct = Inr (Some testInfo)"
  by (simp add: testStruct_def testInfo_def sqlTags_eval)

lemma sqlTags_keyNoUpdateStruct: "sqlTags typeName keyNoUpdateStruct = Inr (Some keyNoUpdateInfo)"
  by (simp add: keyNoUpdateStruct_def keyNoUpdateInfo_def sqlTags_eval)

lemma sqlTags_twoTablesStruct: "sqlTags typeName twoTablesStruct = Inr (Some twoTablesInfo)"
  by (simp add: twoTablesStruct_def twoTablesInfo_def sqlTags_eval)

lemma sqlTags_lastTableStruct: "sqlTags typeName lastTableStruct = Inr (Some lastTableInfo)"
  by (simp add: lastTableStruct_def lastTableInfo_def sqlTags_eval)

lemma sqlTags_auditOnlyStruct: "sqlTags typeName auditOnlyStruct = Inr (Some auditOnlyInfo)"
  by (simp add: auditOnlyStruct_def auditOnlyField_def auditOnlyInfo_def sqlTags_eval)

lemma sqlTags_embeddedAuditStruct: "sqlTags typeName embeddedAuditStruct = Inl IndexOutOfRange"
  by (simp add: embeddedAuditStruct_def sqlTags_eval)

lemma sqlTags_testStructUpdatable:
  "sqlTags typeName testStructUpdatable = Inr (Some (testInfo\<lparr>NoUpdate := {}\<rparr>))"
  by (simp add: testStructUpdatable_def testInfo_def sqlTags_eval)

lemma testStruct_identifiers: "list_all identifiers testStruct"
  by (simp add: testStruct_def identifiers_def)

lemma exampleStruct_identifiers: "list_all identifiers exampleStruct"
  by (simp add: exampleStruct_def identifiers_def)

lemma twoTablesStruct_tables: "map (\<lambda>f. tagValue f ''table'') twoTablesStruct = [''t1'', ''t2'']"
  by (simp add: twoTablesStruct_def tagValue_def)

lemma Split_testStruct: "Split ''testStruct'' (CHR '','') = [''testStruct'']"
  by simp

lemma testFiles_sameButUpdate: "sameButUpdate testFile testFileUpdatable"
  by (simp add: testFile_def testFileUpdatable_def structFile_def testStruct_def
      testStructUpdatable_def sameButUpdateField_def sameButUpdateTag_def)

lemma sqlTags_embeddedUpdateStruct: "sqlTags typeName embeddedUpdateStruct = Inl IndexOutOfRange"
  by (simp add: embeddedUpdateStruct_def sqlTags_eval)

lemma sqlTags_embeddedUpdateTrueStruct:
  "sqlTags typeName embeddedUpdateTrueStruct = Inr (Some embeddedUpdateTrueInfo)"
  by (simp add: embeddedUpdateTrueStruct_def embeddedUpdateTrueInfo_def sqlTags_eval)

lemma embeddedUpdateFiles_sameButUpdate:
  "sameButUpdate embeddedUpdateFile embeddedUpdateTrueFile"
  by (simp add: embeddedUpdateFile_def embeddedUpdateTrueFile_def structFile_def
      embeddedUpdateStruct_def embeddedUpdateTrueStruct_def sameButUpdateField_def
      sameButUpdateTag_def)

subsection \<open>Two runs that both return\<close>

text \<open>
  When the runs of the generator on two inputs that differ in the values of the
  \<^verbatim>\<open>update\<close> tags only both return, the two buffers, and so the two formatted
  outputs, are equal byte for byte; and the set \<^verbatim>\<open>NoUpdate\<close> of a descriptor has no
  influence on the text \<^verbatim>\<open>buildWrappers\<close> prints for it.
\<close>

lemma main_buf_sameButUpdate:
  assumes p: "list_all2 (rel_option sameButUpdate) parsed parsed'"
    and r: "main_buf os_Args typeNames pkg_name parsed = Inr out"
    and r': "main_buf os_Args typeNames pkg_name parsed' = Inr out'"
  shows "out = out' \<and> format format_Source out = format format_Source out' \<and>
         buildWrappers (s\<lparr>NoUpdate := X\<rparr>) b = buildWrappers s b"
proof -
  define header where "header =
    Printf (Printf (Printf []
      (''// generated by '' @ [CHR 0x27] @ ''dbgen '' @ Join os_Args '' '' @
       [CHR 0x27] @ ''; DO NOT EDIT'' @ nl))
      (nl @ ''package '' @ pkg_name @ nl))
      (nl @ nl @ ''import ('' @ nl @ tab @ dq @ ''time'' @ dq @ nl @ '')'' @ nl @ nl)"
  define g where "g = \<lparr>buf = header, pkg = \<lparr>name = pkg_name, files = map parsedFile parsed\<rparr>\<rparr>"
  define g' where "g' = \<lparr>buf = header, pkg = \<lparr>name = pkg_name, files = map parsedFile parsed'\<rparr>\<rparr>"
  define run where "run = (\<lambda>h. if length (Split typeNames (CHR '','')) = 0 then generate [] h
    else generateNames (Split typeNames (CHR '','')) h)"
  have m: "main_buf os_Args typeNames pkg_name parsed =
      (case run g of Inl e \<Rightarrow> Inl e | Inr g1 \<Rightarrow> Inr (buf g1))"
    and m': "main_buf os_Args typeNames pkg_name parsed' =
      (case run g' of Inl e \<Rightarrow> Inl e | Inr g1 \<Rightarrow> Inr (buf g1))"
    by (simp_all add: main_buf_def Let_def g_def g'_def header_def run_def)
  from r m obtain g1 where a: "run g = Inr g1" "out = buf g1"
    by (auto split: sum.splits)
  from r' m' obtain g1' where a': "run g' = Inr g1'" "out' = buf g1'"
    by (auto split: sum.splits)
  have s: "sameGenerator g g'"
    using parsedFile_sameButUpdate[OF p] by (simp add: sameGenerator_def g_def g'_def)
  have "sameGenerator g1 g1'"
  proof (cases "length (Split typeNames (CHR '','')) = 0")
    case True
    with a(1) a'(1) generate_sameButUpdate[OF s] show ?thesis
      by (simp add: run_def)
  next
    case False
    with a(1) a'(1) generateNames_sameButUpdate[OF s] show ?thesis
      by (simp add: run_def)
  qed
  with a(2) a'(2) have "out = out'"
    by (simp add: sameGenerator_def)
  then show ?thesis
    by (simp add: buildWrappers_NoUpdate)
qed

lemma main_buf_sameButUpdate_testFile:
  "sameButUpdate testFile testFileUpdatable \<and>
   main_buf [''-type'', ''testStruct'', ''struct_test.go''] ''testStruct'' ''main''
     [Some testFile] =
   main_buf [''-type'', ''testStruct'', ''struct_test.go''] ''testStruct'' ''main''
     [Some testFileUpdatable] \<and>
   main_buf [''-type'', ''testStruct'', ''struct_test.go''] ''testStruct'' ''main''
     [Some testFile] \<noteq> Inl IndexOutOfRange"
proof -
  have p: "list_all2 (rel_option sameButUpdate) [Some testFile] [Some testFileUpdatable]"
    by (simp add: testFiles_sameButUpdate)
  note a = main_buf_structFile[OF sqlTags_testStruct Split_testStruct, folded testFile_def]
  note b = main_buf_structFile[OF sqlTags_testStructUpdatable Split_testStruct,
      folded testFileUpdatable_def]
  from main_buf_sameButUpdate [OF p a b] have "main_buf
     [''-type'', ''testStruct'', ''struct_test.go''] ''testStruct'' ''main'' [Some testFile] =
   main_buf [''-type'', ''testStruct'', ''struct_test.go''] ''testStruct'' ''main''
     [Some testFileUpdatable]"
    unfolding a b by (simp only: simp_thms sum.inject)
  moreover have "main_buf [''-type'', ''testStruct'', ''struct_test.go''] ''testStruct'' ''main''
     [Some testFile] \<noteq> Inl IndexOutOfRange"
    unfolding a by (simp only: sum.distinct simp_thms)
  ultimately show ?thesis
    using testFiles_sameButUpdate by (simp only: simp_thms)
qed

section \<open>The claims\<close>

text \<open>
  C1, as amended. For a descriptor that \<^verbatim>\<open>sqlTags\<close> returns for a struct, the
  generated \<^verbatim>\<open>InsertFields()\<close> returns the comma-joined columns of the key field
  (first, when the struct has one) and of every non-key persisted field in
  declaration order, and the generated \<^verbatim>\<open>InsertValues()\<close> returns the values of the
  non-key persisted fields only; neither depends on \<^verbatim>\<open>NoUpdate\<close>.
\<close>

theorem InsertFields_lists_key_and_columns:
  assumes ok: "sqlTags typeName fs = Inr (Some s)" and ids: "list_all identifiers fs"
  shows "printInsertFields (s\<lparr>Name := n\<rparr>) =
           stringInsertFields n (Join (map (columnOf s) (persistedOrder fs)) '','') \<and>
         printInsertValues (s\<lparr>Name := n\<rparr>) =
           stringInsertValues n (Join (map (\<lambda>f. ''o.'' @ fieldName f) (columnFields fs)) '','') \<and>
         printInsertFields (s\<lparr>Name := n, NoUpdate := X\<rparr>) = printInsertFields (s\<lparr>Name := n\<rparr>) \<and>
         printInsertValues (s\<lparr>Name := n, NoUpdate := X\<rparr>) = printInsertValues (s\<lparr>Name := n\<rparr>)"
proof -
  from ids have ids': "\<forall>f \<in> set fs. identifiers f"
    by (simp add: list_all_iff)
  from sqlTags_sql_list[OF ok ids'] sqlTags_elem_list[OF ok ids'] show ?thesis
    by (simp add: printInsertFields_def printInsertValues_def wrapVars_Name wrapVars_NoUpdate)
qed

theorem InsertFields_lists_key_and_columns_witness:
  "sqlTags ''T'' exampleStruct = Inr (Some exampleInfo) \<and>
   list_all identifiers exampleStruct \<and>
   printInsertFields (exampleInfo\<lparr>Name := ''T''\<rparr>) = stringInsertFields ''T'' ''id,name'' \<and>
   printInsertValues (exampleInfo\<lparr>Name := ''T''\<rparr>) = stringInsertValues ''T'' ''o.Name''"
  using InsertFields_lists_key_and_columns
    [OF sqlTags_exampleStruct exampleStruct_identifiers, where n = "''T''" and X = "{}"]
    sqlTags_exampleStruct exampleStruct_identifiers
  by (simp add: exampleStruct_def exampleInfo_def fields_eval)

theorem InsertFields_excludes_key_counterexample:
  "sqlTags ''T'' exampleStruct = Inr (Some exampleInfo) \<and>
   KeyField exampleInfo = ''id'' \<and>
   printInsertFields (exampleInfo\<lparr>Name := ''T''\<rparr>) = stringInsertFields ''T'' ''id,name'' \<and>
   printInsertFields (exampleInfo\<lparr>Name := ''T''\<rparr>) \<noteq> stringInsertFields ''T'' ''name''"
  using sqlTags_exampleStruct
  by (simp add: exampleInfo_def printInsertFields_def wrapVars_sql FieldsAt_def
      stringInsertFields_def)

text \<open>
  C9. For every descriptor the generated \<^verbatim>\<open>InsertFields()\<close> and
  \<^verbatim>\<open>SelectFields()\<close> return the same string: the comma-join of the key column, when
  the descriptor has one, followed by the column of every name in \<^verbatim>\<open>Order\<close>.
\<close>

theorem InsertFields_same_as_SelectFields:
  "printInsertFields s =
     stringInsertFields (Name s)
       (Join ((if KeyField s = [] then [] else [KeyField s]) @
              map (FieldsAt s) (filter (\<lambda>k. k \<noteq> []) (Order s))) '','') \<and>
   printSelectFields s =
     stringSelectFields (Name s)
       (Join ((if KeyField s = [] then [] else [KeyField s]) @
              map (FieldsAt s) (filter (\<lambda>k. k \<noteq> []) (Order s))) '','')"
proof -
  have "sql (wrapVars s) =
      (if KeyField s = [] then [] else [KeyField s]) @
      map (FieldsAt s) (filter (\<lambda>k. k \<noteq> []) (Order s))"
    by (rule wrapVars_sql)
  then show ?thesis
    by (simp add: printInsertFields_def printSelectFields_def)
qed

theorem InsertFields_same_as_SelectFields_witness:
  "printInsertFields testInfo = stringInsertFields [] ''id,name,kind,data,created'' \<and>
   printSelectFields testInfo = stringSelectFields [] ''id,name,kind,data,created''"
  using InsertFields_same_as_SelectFields [of testInfo]
  by (simp add: testInfo_def FieldsAt_def)

text \<open>
  C2, as amended. For a descriptor that \<^verbatim>\<open>sqlTags\<close> returns, \<^verbatim>\<open>NoUpdate\<close> holds
  exactly the names of the fields whose \<^verbatim>\<open>update\<close> value parses as boolean false,
  the key field among them when its tag says so; a value that does not parse, or
  parses as true, never adds the field.
\<close>

theorem NoUpdate_holds_every_false_update:
  assumes "sqlTags typeName fs = Inr (Some s)"
  shows "NoUpdate s =
           set (map fieldName (filter (\<lambda>f. ParseBool (tagValue f ''update'') = Some False) fs))"
  using sqlTags_descriptor(5)[OF assms] by auto

theorem NoUpdate_holds_every_false_update_witness:
  "sqlTags ''T'' keyNoUpdateStruct = Inr (Some keyNoUpdateInfo) \<and>
   NoUpdate keyNoUpdateInfo = {''ID''} \<and>
   map (\<lambda>f. ParseBool (tagValue f ''update'')) keyNoUpdateStruct = [Some False, None]"
  using NoUpdate_holds_every_false_update [OF sqlTags_keyNoUpdateStruct]
    sqlTags_keyNoUpdateStruct
  by (simp add: keyNoUpdateStruct_def fields_eval ParseBool_def)

theorem NoUpdate_excludes_key_counterexample:
  "sqlTags ''T'' keyNoUpdateStruct = Inr (Some keyNoUpdateInfo) \<and>
   KeyName keyNoUpdateInfo = ''ID'' \<and>
   ''ID'' \<in> NoUpdate keyNoUpdateInfo"
  using sqlTags_keyNoUpdateStruct by (simp add: keyNoUpdateInfo_def)

text \<open>
  C4, as amended. When one or more fields of a struct carry both a non-empty
  \<^verbatim>\<open>sql\<close> value and a non-empty \<^verbatim>\<open>table\<close> value, the table of the descriptor,
  and the string the generated \<^verbatim>\<open>TableName()\<close> returns, is the \<^verbatim>\<open>table\<close> value of
  the last such field in declaration order.
\<close>

theorem Table_is_last_persisted_table_tag:
  assumes "sqlTags typeName fs = Inr (Some s)" and "tableFields fs \<noteq> []"
  shows "Table s = tagValue (last (tableFields fs)) ''table'' \<and>
         printTableName (s\<lparr>Name := n\<rparr>) =
           stringTableName n (tagValue (last (tableFields fs)) ''table'')"
  using sqlTags_descriptor(4)[OF assms(1)] assms(2)
  by (simp add: printTableName_def)

theorem Table_is_last_persisted_table_tag_witness:
  "sqlTags ''T'' lastTableStruct = Inr (Some lastTableInfo) \<and>
   map (\<lambda>f. tagValue f ''table'') (tableFields lastTableStruct) = [''t1'', ''t2''] \<and>
   Table lastTableInfo = ''t2'' \<and>
   printTableName (lastTableInfo\<lparr>Name := ''T''\<rparr>) = stringTableName ''T'' ''t2''"
proof -
  have t: "tableFields lastTableStruct \<noteq> []"
    by (simp add: lastTableStruct_def fields_eval)
  from Table_is_last_persisted_table_tag [OF sqlTags_lastTableStruct t, where n = "''T''"]
    sqlTags_lastTableStruct
  show ?thesis
    by (simp add: lastTableStruct_def fields_eval)
qed

theorem Table_last_wins_counterexample:
  "sqlTags ''T'' twoTablesStruct = Inr (Some twoTablesInfo) \<and>
   map (\<lambda>f. tagValue f ''table'') twoTablesStruct = [''t1'', ''t2''] \<and>
   Table twoTablesInfo = ''t1'' \<and>
   printTableName (twoTablesInfo\<lparr>Name := ''T''\<rparr>) = stringTableName ''T'' ''t1'' \<and>
   printTableName (twoTablesInfo\<lparr>Name := ''T''\<rparr>) \<noteq> stringTableName ''T'' ''t2''"
  using sqlTags_twoTablesStruct twoTablesStruct_tables
  by (simp add: twoTablesInfo_def printTableName_def stringTableName_def)

text \<open>
  C5. For a descriptor that \<^verbatim>\<open>sqlTags\<close> returns, the generated
  \<^verbatim>\<open>SelectFields()\<close> and \<^verbatim>\<open>MemberPointers()\<close> enumerate the same sequence of
  fields, position by position: the key field first when the struct has one, then
  the non-key persisted fields in declaration order; the first lists the column of
  each field, the second its address. With distinct field names the column of a
  field is its \<^verbatim>\<open>sql\<close> value.
\<close>

theorem SelectFields_MemberPointers_same_order:
  assumes ok: "sqlTags typeName fs = Inr (Some s)" and ids: "list_all identifiers fs"
  shows "printSelectFields (s\<lparr>Name := n\<rparr>) =
           stringSelectFields n (Join (map (columnOf s) (persistedOrder fs)) '','') \<and>
         printMemberPointers (s\<lparr>Name := n\<rparr>) =
           stringMemberPointers n
             (Join (map (\<lambda>f. ''&o.'' @ fieldName f) (persistedOrder fs)) '','') \<and>
         (distinct (map fieldName (columnFields fs)) \<longrightarrow>
            map (columnOf s) (persistedOrder fs) =
            map (\<lambda>f. tagValue f ''sql'') (persistedOrder fs))"
proof -
  from ids have ids': "\<forall>f \<in> set fs. identifiers f"
    by (simp add: list_all_iff)
  have cols: "map (columnOf s) (persistedOrder fs) = map (\<lambda>f. tagValue f ''sql'') (persistedOrder fs)"
    if d: "distinct (map fieldName (columnFields fs))"
  proof -
    have "columnOf s f = tagValue f ''sql''" if "f \<in> set (columnFields fs)" for f
    proof -
      from that have "tagValue f ''key'' = []" by (simp add: columnFields_def)
      moreover have "Fields s (fieldName f) = Some (tagValue f ''sql'')"
        by (rule tagFields_Fields_distinct[OF sqlTags_Some[OF ok] d that])
      ultimately show ?thesis by (simp add: columnOf_def FieldsAt_def)
    qed
    moreover have "columnOf s (last (keyFields fs)) = tagValue (last (keyFields fs)) ''sql''"
      if "keyFields fs \<noteq> []"
      using that keyFields_last[OF that] sqlTags_descriptor(3)[OF ok]
      by (simp add: columnOf_def)
    ultimately show ?thesis
      by (simp add: persistedOrder_def)
  qed
  from sqlTags_sql_list[OF ok ids'] sqlTags_ptr_list[OF ok ids'] cols show ?thesis
    by (simp add: printSelectFields_def printMemberPointers_def wrapVars_Name)
qed

theorem SelectFields_MemberPointers_same_order_witness:
  "sqlTags ''testStruct'' testStruct = Inr (Some testInfo) \<and>
   list_all identifiers testStruct \<and>
   distinct (map fieldName (columnFields testStruct)) \<and>
   printSelectFields (testInfo\<lparr>Name := ''testStruct''\<rparr>) =
     stringSelectFields ''testStruct'' ''id,name,kind,data,created'' \<and>
   printMemberPointers (testInfo\<lparr>Name := ''testStruct''\<rparr>) =
     stringMemberPointers ''testStruct'' ''&o.ID,&o.Name,&o.Kind,&o.Data,&o.Created''"
  using SelectFields_MemberPointers_same_order
    [OF sqlTags_testStruct testStruct_identifiers, where n = "''testStruct''"]
    sqlTags_testStruct testStruct_identifiers
  by (simp add: testStruct_def fields_eval)

text \<open>
  C6. For a descriptor with a key field, the generated \<^verbatim>\<open>UpdateValues()\<close> returns
  the values of the non-key persisted fields in declaration order and the key value
  last; it has one element more than there are non-key persisted fields, and
  \<^verbatim>\<open>NoUpdate\<close> has no influence on it.
\<close>

theorem UpdateValues_columns_then_key:
  assumes ok: "sqlTags typeName fs = Inr (Some s)" and ids: "list_all identifiers fs"
    and key: "keyFields fs \<noteq> []"
  shows "printUpdateValues (s\<lparr>Name := n\<rparr>) =
           stringUpdateValues n
             (Join (map (\<lambda>f. ''o.'' @ fieldName f) (columnFields fs @ [last (keyFields fs)]))
                '','') \<and>
         length (elemWithKey (s\<lparr>Name := n\<rparr>)) = length (columnFields fs) + 1 \<and>
         elemWithKey (s\<lparr>Name := n, NoUpdate := X\<rparr>) = elemWithKey (s\<lparr>Name := n\<rparr>) \<and>
         printUpdateValues (s\<lparr>Name := n, NoUpdate := X\<rparr>) = printUpdateValues (s\<lparr>Name := n\<rparr>)"
proof -
  from ids have ids': "\<forall>f \<in> set fs. identifiers f"
    by (simp add: list_all_iff)
  have k: "KeyName s = fieldName (last (keyFields fs))" "KeyName s \<noteq> []"
    using sqlTags_descriptor(2)[OF ok] sqlTags_key_nonempty(1)[OF ok ids'] key by simp_all
  have e: "elemWithKey (s\<lparr>Name := n\<rparr>) =
      map (\<lambda>f. ''o.'' @ fieldName f) (columnFields fs @ [last (keyFields fs)])"
    using k sqlTags_elem_list[OF ok ids'] by (simp add: elemWithKey_def wrapVars_Name)
  have x: "elemWithKey (s\<lparr>Name := n, NoUpdate := X\<rparr>) = elemWithKey (s\<lparr>Name := n\<rparr>)"
    by (simp add: elemWithKey_def wrapVars_NoUpdate)
  from e x show ?thesis
    by (simp add: printUpdateValues_def)
qed

theorem UpdateValues_columns_then_key_witness:
  "sqlTags ''testStruct'' testStruct = Inr (Some testInfo) \<and>
   list_all identifiers testStruct \<and>
   map fieldName (keyFields testStruct) = [''ID''] \<and>
   NoUpdate testInfo = {''Created''} \<and>
   printUpdateValues (testInfo\<lparr>Name := ''testStruct''\<rparr>) =
     stringUpdateValues ''testStruct'' ''o.Name,o.Kind,o.Data,o.Created,o.ID'' \<and>
   length (elemWithKey (testInfo\<lparr>Name := ''testStruct''\<rparr>)) = 5"
proof -
  have k: "keyFields testStruct \<noteq> []"
    by (simp add: testStruct_def fields_eval)
  from UpdateValues_columns_then_key
    [OF sqlTags_testStruct testStruct_identifiers k, where n = "''testStruct''" and X = "{}"]
    sqlTags_testStruct testStruct_identifiers
  show ?thesis
    by (simp add: testStruct_def fields_eval) (simp add: testInfo_def)
qed

text \<open>
  C3, as amended. Parsing a field whose tag has no non-empty \<^verbatim>\<open>sql\<close> value sets no
  table name and no key and adds no column: the table, the key, \<^verbatim>\<open>Order\<close> and
  \<^verbatim>\<open>Fields\<close> of the descriptor stay as they are, the flag \<^verbatim>\<open>good\<close> is not set by
  it, and the text of every generated method other than \<^verbatim>\<open>ModifiedBy\<close> is
  unchanged. The \<^verbatim>\<open>audit\<close> and \<^verbatim>\<open>update\<close> values of the field are read all the
  same.
\<close>

theorem field_without_sql_adds_no_column:
  assumes nosql: "tagValue f ''sql'' = []"
    and step: "tagField f (info, good) = Inr (info', good')"
  shows "good' = good \<and> Name info' = Name info \<and> Table info' = Table info \<and>
         KeyName info' = KeyName info \<and> KeyField info' = KeyField info \<and>
         Order info' = Order info \<and> Fields info' = Fields info \<and>
         printGeneratorComment info' = printGeneratorComment info \<and>
         printNewObj info' = printNewObj info \<and>
         printInterfaceComment info' = printInterfaceComment info \<and>
         printInsertValues info' = printInsertValues info \<and>
         printUpdateValues info' = printUpdateValues info \<and>
         printMemberPointers info' = printMemberPointers info \<and>
         printKeySetID info' = printKeySetID info \<and>
         printSQLGet info' = printSQLGet info \<and>
         printTableName info' = printTableName info \<and>
         printSelectFields info' = printSelectFields info \<and>
         printInsertFields info' = printInsertFields info \<and>
         printKeyField info' = printKeyField info \<and>
         printKeyName info' = printKeyName info \<and>
         printNames info' = printNames info"
proof -
  have g: "good' = good"
    using tagField_Inr(2)[OF step] nosql by simp
  have e: "Name info' = Name info" "Table info' = Table info" "KeyName info' = KeyName info"
    "KeyField info' = KeyField info" "Order info' = Order info" "Fields info' = Fields info"
    using nosql by (subst tagField_Inr(1)[OF step], simp)+
  from g e prints_cong[OF e] show ?thesis
    by simp
qed

theorem field_without_sql_adds_no_column_witness:
  "tagValue auditOnlyField ''sql'' = [] \<and>
   tagField auditOnlyField (exampleInfo, True) =
     Inr (exampleInfo\<lparr>UserField := ''UserID'', NoUpdate := {''UserID''}\<rparr>, True) \<and>
   printSelectFields (exampleInfo\<lparr>UserField := ''UserID'', NoUpdate := {''UserID''}\<rparr>) =
     printSelectFields exampleInfo"
proof -
  have n: "tagValue auditOnlyField ''sql'' = []"
    by (simp add: auditOnlyField_def tagValue_def)
  have s: "tagField auditOnlyField (exampleInfo, True) =
      Inr (exampleInfo\<lparr>UserField := ''UserID'', NoUpdate := {''UserID''}\<rparr>, True)"
    by (simp add: auditOnlyField_def exampleInfo_def sqlTags_eval)
  from field_without_sql_adds_no_column [OF n s] n s show ?thesis
    by simp
qed

theorem field_without_sql_contributes_nothing_counterexample:
  "sqlTags ''T'' auditOnlyStruct = Inr (Some auditOnlyInfo) \<and>
   tagValue auditOnlyField ''sql'' = [] \<and>
   tagField auditOnlyField (newSQLInfo, False) =
     Inr (newSQLInfo\<lparr>UserField := ''UserID'', NoUpdate := {''UserID''}\<rparr>, False) \<and>
   UserField auditOnlyInfo = ''UserID'' \<and>
   ''UserID'' \<in> NoUpdate auditOnlyInfo \<and>
   printAudit (auditOnlyInfo\<lparr>Name := ''T''\<rparr>) =
     ''func (o *T) ModifiedBy(user int64, t time.Time) {'' @ nl @
     ''o.UserID = &user'' @ nl @ ''}'' @ nl @ nl @ nl"
  using sqlTags_auditOnlyStruct
  by (simp add: auditOnlyField_def auditOnlyInfo_def tagValue_def sqlTags_eval
      printAudit_def auditString_def)

text \<open>
  C8. A struct in which no field has a non-empty \<^verbatim>\<open>sql\<close> value is to give no
  descriptor and no error. On a struct whose only field is an embedded field tagged
  \<^verbatim>\<open>audit:"time"\<close> the tag parser, and with it the whole run, panics with an index
  out of range.
\<close>

theorem embedded_audit_field_panics:
  "map (\<lambda>f. tagValue f ''sql'') embeddedAuditStruct = [[]] \<and>
   sqlTags ''T'' embeddedAuditStruct = Inl IndexOutOfRange \<and>
   main_buf [''-type'', ''T'', ''t.go''] ''T'' ''p'' [Some embeddedAuditFile] =
     Inl IndexOutOfRange"
proof -
  have "Split ''T'' (CHR '','') = [''T'']"
    by simp
  from main_buf_structFile_panic[OF sqlTags_embeddedAuditStruct this]
  have "main_buf [''-type'', ''T'', ''t.go''] ''T'' ''p'' [Some embeddedAuditFile] =
      Inl IndexOutOfRange"
    by (simp add: embeddedAuditFile_def)
  moreover have "map (\<lambda>f. tagValue f ''sql'') embeddedAuditStruct = [[]]"
    by (simp add: embeddedAuditStruct_def tagValue_def)
  ultimately show ?thesis
    by (simp add: sqlTags_embeddedAuditStruct)
qed

text \<open>
  C10. Two inputs that are identical except for the values of the \<^verbatim>\<open>update\<close> tags
  of their fields are to give the same output. On a struct with an embedded field
  tagged \<^verbatim>\<open>update:"false"\<close> the run panics with an index out of range, and on
  the same struct with \<^verbatim>\<open>update:"true"\<close> it returns the text of the methods.
\<close>

theorem update_value_decides_panic:
  "sameButUpdate embeddedUpdateFile embeddedUpdateTrueFile \<and>
   main_buf [''-type'', ''T'', ''t.go''] ''T'' ''p'' [Some embeddedUpdateFile] =
     Inl IndexOutOfRange \<and>
   main_buf [''-type'', ''T'', ''t.go''] ''T'' ''p'' [Some embeddedUpdateTrueFile] =
     Inr (buildWrappers (embeddedUpdateTrueInfo\<lparr>Name := ''T''\<rparr>)
           (''// generated by '' @ [CHR 0x27] @ ''dbgen -type T t.go'' @
            [CHR 0x27] @ ''; DO NOT EDIT'' @ nl @ nl @ ''package p'' @ nl @
            nl @ nl @ ''import ('' @ nl @ tab @ dq @ ''time'' @ dq @ nl @ '')'' @ nl @ nl))"
proof -
  have s: "Split ''T'' (CHR '','') = [''T'']"
    by simp
  from main_buf_structFile_panic[OF sqlTags_embeddedUpdateStruct s]
  have a: "main_buf [''-type'', ''T'', ''t.go''] ''T'' ''p'' [Some embeddedUpdateFile] =
      Inl IndexOutOfRange"
    by (simp add: embeddedUpdateFile_def)
  from main_buf_structFile[OF sqlTags_embeddedUpdateTrueStruct s,
      of "[''-type'', ''T'', ''t.go'']" "''p''"]
  have b: "main_buf [''-type'', ''T'', ''t.go''] ''T'' ''p'' [Some embeddedUpdateTrueFile] =
      Inr (buildWrappers (embeddedUpdateTrueInfo\<lparr>Name := ''T''\<rparr>)
           (''// generated by '' @ [CHR 0x27] @ ''dbgen -type T t.go'' @
            [CHR 0x27] @ ''; DO NOT EDIT'' @ nl @ nl @ ''package p'' @ nl @
            nl @ nl @ ''import ('' @ nl @ tab @ dq @ ''time'' @ dq @ nl @ '')'' @ nl @ nl))"
    by (simp add: embeddedUpdateTrueFile_def)
  from a b embeddedUpdateFiles_sameButUpdate show ?thesis
    by (simp only: simp_thms)
qed

end
